theory Spec2Isabelle
  imports Complex_Main "HOL-Library.Monad_Syntax" "HOL-Library.Char_ord" "HOL-Library.List_Lexorder"
begin

section \<open>Psychometric Duel: the game engine of pythonport.py\<close>

text \<open>
  The engine is a Python module working on nested dictionaries. The embedding gives every
  dictionary shape of the engine a record or a datatype, every list stays a list, Python's
  unbounded integers are \<open>int\<close>, and every exception the code can raise (IndexError,
  KeyError, TypeError, ZeroDivisionError) is the result \<open>None\<close> of an option-valued
  function. Python floats are modelled by \<open>real\<close>: the arithmetic of the model is exact
  where the interpreter rounds to binary64. The properties proved below either do not depend
  on the value of a float at all, or concern integers that binary64 represents exactly.
  The engine deep-copies the state before every transition and never shares a monster, a
  stack or a card between two places, so the value semantics of HOL is the semantics of
  the code.
\<close>

subsection \<open>Constants and rule tables\<close>

definition MAX_HAND_SIZE :: int where "MAX_HAND_SIZE = 12"
definition STARTING_HAND_SIZE :: nat where "STARTING_HAND_SIZE = 12"
definition EXPERIENCE_MISS_THRESHOLD :: int where "EXPERIENCE_MISS_THRESHOLD = 4"
definition EXPERIENCE_DRAW_COUNT :: nat where "EXPERIENCE_DRAW_COUNT = 3"

record construct_info =
  c_name :: string
  c_type :: string
  c_short :: string
  c_avgR :: real

definition CONSTRUCTS_items :: "(string \<times> construct_info) list" where
  "CONSTRUCTS_items =
    [(''cog_ability'', \<lparr>c_name = ''Cognitive Ability'', c_type = ''predictor'', c_short = ''COG'', c_avgR = 65 / 100\<rparr>),
     (''conscient'', \<lparr>c_name = ''Conscientiousness'', c_type = ''predictor'', c_short = ''CON'', c_avgR = 45 / 100\<rparr>),
     (''struct_int'', \<lparr>c_name = ''Struct. Interview'', c_type = ''predictor'', c_short = ''INT'', c_avgR = 55 / 100\<rparr>),
     (''work_sample'', \<lparr>c_name = ''Work Sample'', c_type = ''predictor'', c_short = ''WST'', c_avgR = 50 / 100\<rparr>),
     (''job_perf'', \<lparr>c_name = ''Job Performance'', c_type = ''outcome'', c_short = ''PERF'', c_avgR = 52 / 100\<rparr>),
     (''turnover'', \<lparr>c_name = ''Turnover'', c_type = ''outcome'', c_short = ''TURN'', c_avgR = 40 / 100\<rparr>),
     (''job_sat'', \<lparr>c_name = ''Job Satisfaction'', c_type = ''outcome'', c_short = ''SAT'', c_avgR = 48 / 100\<rparr>),
     (''ocb'', \<lparr>c_name = ''OCB'', c_type = ''outcome'', c_short = ''OCB'', c_avgR = 44 / 100\<rparr>)]"

definition CONSTRUCTS :: "string \<rightharpoonup> construct_info" where
  "CONSTRUCTS = map_of CONSTRUCTS_items"

definition TRUE_VALIDITY_items :: "(string \<times> (string \<times> real) list) list" where
  "TRUE_VALIDITY_items =
    [(''cog_ability'', [(''job_perf'', 51 / 100), (''turnover'', 20 / 100), (''job_sat'', 15 / 100), (''ocb'', 12 / 100)]),
     (''conscient'', [(''job_perf'', 31 / 100), (''turnover'', 26 / 100), (''job_sat'', 25 / 100), (''ocb'', 30 / 100)]),
     (''struct_int'', [(''job_perf'', 51 / 100), (''turnover'', 22 / 100), (''job_sat'', 18 / 100), (''ocb'', 15 / 100)]),
     (''work_sample'', [(''job_perf'', 54 / 100), (''turnover'', 15 / 100), (''job_sat'', 12 / 100), (''ocb'', 10 / 100)])]"

definition ADVERSE_IMPACT_BWD_items :: "(string \<times> (string \<times> real) list) list" where
  "ADVERSE_IMPACT_BWD_items =
    [(''cog_ability'', [(''job_perf'', 95 / 100), (''turnover'', 60 / 100), (''job_sat'', 58 / 100), (''ocb'', 55 / 100)]),
     (''conscient'', [(''job_perf'', 20 / 100), (''turnover'', 5 / 100), (''job_sat'', 5 / 100), (''ocb'', 5 / 100)]),
     (''struct_int'', [(''job_perf'', 35 / 100), (''turnover'', 22 / 100), (''job_sat'', 22 / 100), (''ocb'', 22 / 100)]),
     (''work_sample'', [(''job_perf'', 55 / 100), (''turnover'', 40 / 100), (''job_sat'', 40 / 100), (''ocb'', 40 / 100)])]"

text \<open>\<open>TABLE.get(pred_id, {}).get(out_id, default)\<close>\<close>

definition table_get :: "(string \<times> (string \<times> real) list) list \<Rightarrow> string \<Rightarrow> string \<Rightarrow> real \<Rightarrow> real" where
  "table_get tbl pred_id out_id dflt =
     (case map_of tbl pred_id of
        None \<Rightarrow> dflt
      | Some row \<Rightarrow> (case map_of row out_id of None \<Rightarrow> dflt | Some v \<Rightarrow> v))"

text \<open>The dictionary \<open>COUNTS\<close>, in its insertion order (the order \<open>COUNTS.items()\<close> yields).\<close>

definition COUNTS :: "(string \<times> nat) list" where
  "COUNTS =
    [(''cog_ability'', 4), (''conscient'', 4), (''struct_int'', 4), (''work_sample'', 4),
     (''job_perf'', 4), (''turnover'', 4), (''job_sat'', 4), (''ocb'', 4),
     (''sample_size'', 3), (''job_relevance'', 4), (''imputation'', 1), (''missing_data'', 1),
     (''range_restrict'', 2), (''item_leakage'', 2), (''correction'', 2), (''p_hacking'', 1),
     (''practice_effect'', 2), (''bootstrapping'', 2), (''item_analysis'', 2),
     (''construct_drift'', 1), (''criterion_contam'', 1)]"

definition TARGETING_MONSTER_SPELLS :: "string set" where
  "TARGETING_MONSTER_SPELLS =
    {''sample_size'', ''job_relevance'', ''imputation'', ''p_hacking'', ''practice_effect'',
     ''range_restrict'', ''item_leakage'', ''correction'', ''bootstrapping'', ''criterion_contam''}"

definition TARGETING_CONSTRUCT_SPELLS :: "string set" where
  "TARGETING_CONSTRUCT_SPELLS = {''missing_data'', ''construct_drift'', ''item_analysis''}"

subsection \<open>Python primitives\<close>

text \<open>
  List indexing as Python does it: a negative index counts from the end, and an index out
  of range raises IndexError (\<open>None\<close>). \<open>py_pop\<close> is \<open>list.pop(i)\<close>, \<open>py_set\<close>
  is \<open>xs[i] = v\<close>.
\<close>

definition py_norm :: "'a list \<Rightarrow> int \<Rightarrow> nat option" where
  "py_norm xs i =
     (let len = int (length xs); j = (if i < 0 then i + len else i)
      in if 0 \<le> j \<and> j < len then Some (nat j) else None)"

definition py_get :: "'a list \<Rightarrow> int \<Rightarrow> 'a option" where
  "py_get xs i = map_option (\<lambda>j. xs ! j) (py_norm xs i)"

definition py_set :: "'a list \<Rightarrow> int \<Rightarrow> 'a \<Rightarrow> 'a list option" where
  "py_set xs i v = map_option (\<lambda>j. xs[j := v]) (py_norm xs i)"

definition py_pop :: "'a list \<Rightarrow> int \<Rightarrow> ('a \<times> 'a list) option" where
  "py_pop xs i = map_option (\<lambda>j. (xs ! j, take j xs @ drop (Suc j) xs)) (py_norm xs i)"

text \<open>
  \<open>round(x)\<close> of a float: the nearest integer, a tie going to the even neighbour.
\<close>

definition py_round :: "real \<Rightarrow> int" where
  "py_round x =
     (let f = \<lfloor>x\<rfloor>; d = x - of_int f
      in if d < 1 / 2 then f else if 1 / 2 < d then f + 1 else if even f then f else f + 1)"

definition clamp :: "'a::linorder \<Rightarrow> 'a \<Rightarrow> 'a \<Rightarrow> 'a" where
  "clamp v lo hi = max lo (min hi v)"

subsection \<open>Cards, stacks, monsters\<close>

text \<open>
  An item card is the dictionary \<open>{isItem: True, type, constructId, construct, short, avgR}\<close>,
  a spell card is \<open>{isItem: False, id}\<close>.
\<close>

datatype card =
    ItemCard (card_type: string) (card_constructId: string) (card_construct: string)
             (card_short: string) (card_avgR: real)
  | SpellCard (card_id: string)

fun isItem :: "card \<Rightarrow> bool" where
  "isItem (ItemCard t cid nm sh r) = True"
| "isItem (SpellCard sid) = False"

record construct_stack =
  stack_type :: string
  stack_constructId :: string
  cards :: "card list"

text \<open>
  The monster dictionary. The two display strings \<open>name\<close> and \<open>adverseStarsText\<close> are
  written once when the monster is built and never read by the engine; they are left out.
  The keys \<open>n\<close> and \<open>power\<close> are the fields \<open>m_n\<close> and \<open>m_power\<close>.
\<close>

record monster =
  predId :: string
  outId :: string
  predAlpha :: real
  outAlpha :: real
  rTrue :: real
  adverseImpact :: real
  adverseStars :: int
  requiresJobRelevance :: bool
  rObs :: real
  baseAtk :: int
  atk :: int
  baseN :: int
  m_n :: int
  m_power :: real
  attacksMade :: int
  maxAttacks :: int
  summoningSick :: bool
  hasJobRelevance :: bool
  hasImputation :: bool
  hasPHacking :: bool
  hasPracticeEffect :: bool
  itemLeakageApplied :: bool
  correctionApplied :: bool
  rangeRestrictionStacks :: int
  validityMultiplier :: real
  isMeta :: bool

subsection \<open>Helper arithmetic\<close>

text \<open>\<open>spearmanBrown\<close> divides floats: a zero denominator raises ZeroDivisionError.\<close>

definition spearmanBrown :: "nat \<Rightarrow> real \<Rightarrow> real option" where
  "spearmanBrown k avgR =
     (if 1 + (real k - 1) * avgR = 0 then None
      else Some ((real k * avgR) / (1 + (real k - 1) * avgR)))"

definition adverseImpactStarsFromBwd :: "real \<Rightarrow> int" where
  "adverseImpactStarsFromBwd rawBwd =
     (let d = \<bar>rawBwd\<bar>
      in if d \<le> 10 / 100 then 5
         else if d \<le> 25 / 100 then 4
         else if d \<le> 45 / 100 then 3
         else if d \<le> 65 / 100 then 2
         else 1)"

text \<open>
  \<open>alphaFromStack\<close>: 0.0 for an absent or empty stack; otherwise it reads \<open>avgR\<close> of
  the first card, a key that a spell card does not have (KeyError).
\<close>

definition alphaFromStack :: "construct_stack option \<Rightarrow> real option" where
  "alphaFromStack stack =
     (case stack of
        None \<Rightarrow> Some 0
      | Some st \<Rightarrow>
          (case cards st of
             [] \<Rightarrow> Some 0
           | ItemCard t cid nm sh r # rest \<Rightarrow> spearmanBrown (length (cards st)) r
           | SpellCard sid # rest \<Rightarrow> None))"

definition approxPowerFromROBSandN :: "real \<Rightarrow> int \<Rightarrow> real" where
  "approxPowerFromROBSandN r_obs n =
     (let r = clamp \<bar>r_obs\<bar> 0 (999999 / 1000000)
      in clamp (5 / 100 + (94 / 100) * r * ((real_of_int (max 4 n) - 3) / real_of_int (max 4 n)))
               (5 / 100) (99 / 100))"

subsection \<open>The refresh rule\<close>

text \<open>One pass of the loop \<open>next_atk = round(next_atk / 2)\<close>.\<close>

definition halve :: "int \<Rightarrow> int" where
  "halve a = py_round (real_of_int a / 2)"

text \<open>The local variable \<open>effective_atk_base\<close> of \<open>refreshMonsterStats\<close>, non-meta branch.\<close>

definition effective_multiplier :: "monster \<Rightarrow> real" where
  "effective_multiplier m = (if itemLeakageApplied m then 0 else max 0 (validityMultiplier m))"

definition refreshed_rObs :: "monster \<Rightarrow> real" where
  "refreshed_rObs m =
     (rTrue m * sqrt (max (5 / 100) (predAlpha m) * max (5 / 100) (outAlpha m))) * effective_multiplier m"

definition effective_atk_base :: "monster \<Rightarrow> int" where
  "effective_atk_base m =
     (let base_atk = py_round (\<bar>refreshed_rObs m\<bar> * 10000);
          correction_base = py_round (\<bar>rTrue m\<bar> * effective_multiplier m * 10000)
      in if correctionApplied m then correction_base else base_atk)"

definition refreshMonsterStats :: "monster \<Rightarrow> monster" where
  "refreshMonsterStats m =
     (if isMeta m then m\<lparr>m_power := clamp (m_power m) (7 / 10) (99 / 100)\<rparr>
      else
        let r_obs = refreshed_rObs m;
            base_atk = py_round (\<bar>r_obs\<bar> * 10000);
            next_atk = (halve ^^ nat (max 0 (rangeRestrictionStacks m))) (effective_atk_base m)
        in m\<lparr>rObs := r_obs, baseAtk := base_atk, atk := next_atk,
              m_power := approxPowerFromROBSandN (real_of_int \<bar>next_atk\<bar> / 10000) (m_n m)\<rparr>)"

subsection \<open>Players and game states\<close>

record player =
  lp :: int
  deck :: "card list"
  hand :: "card list"
  constructs :: "construct_stack option list"
  monsters :: "monster option list"
  summoned :: bool
  experienceTokens :: int
  pendingDiscard :: int

text \<open>
  The state dictionary. \<open>players\<close> has the two keys \<open>"1"\<close> and \<open>"2"\<close>; the engine
  reaches a player as \<open>players[str(currentPlayer)]\<close>, which raises KeyError for any other
  number. \<open>mulligan\<close> is written by \<open>initial_state\<close> and never read.
\<close>

record game_state =
  status :: string
  currentPlayer :: int
  winner :: "int option"
  mulligan_phase :: bool
  mulligan_done :: "bool \<times> bool"
  player1 :: player
  player2 :: player

definition get_player :: "game_state \<Rightarrow> int \<Rightarrow> player option" where
  "get_player s pid = (if pid = 1 then Some (player1 s) else if pid = 2 then Some (player2 s) else None)"

definition oppid :: "int \<Rightarrow> int" where
  "oppid pid = (if pid = 1 then 2 else 1)"

text \<open>Writing the two (mutated) player dictionaries back: \<open>me\<close> is \<open>players[pid]\<close>.\<close>

definition put_players :: "game_state \<Rightarrow> int \<Rightarrow> player \<Rightarrow> player \<Rightarrow> game_state" where
  "put_players s pid me opp =
     (if pid = 1 then s\<lparr>player1 := me, player2 := opp\<rparr> else s\<lparr>player1 := opp, player2 := me\<rparr>)"

subsection \<open>Deck, drawing, initial state\<close>

definition makeItemCard :: "string \<Rightarrow> card option" where
  "makeItemCard construct_id =
     (case CONSTRUCTS construct_id of
        None \<Rightarrow> None
      | Some c \<Rightarrow> Some (ItemCard (c_type c) construct_id (c_name c) (c_short c) (c_avgR c)))"

definition makeSpellCard :: "string \<Rightarrow> card" where
  "makeSpellCard cid = SpellCard cid"

definition buildStartingDeck :: "card list" where
  "buildStartingDeck =
     concat (map (\<lambda>(cid, k). replicate k
                    (case makeItemCard cid of Some c \<Rightarrow> c | None \<Rightarrow> makeSpellCard cid))
                 COUNTS)"

fun drawCards :: "player \<Rightarrow> nat \<Rightarrow> bool \<Rightarrow> player" where
  "drawCards p 0 allowOverflow = p"
| "drawCards p (Suc k) allowOverflow =
     (if \<not> allowOverflow \<and> MAX_HAND_SIZE \<le> int (length (hand p)) then p
      else if deck p \<noteq> []
        then drawCards (p\<lparr>hand := hand p @ [last (deck p)], deck := butlast (deck p)\<rparr>) k allowOverflow
        else drawCards p k allowOverflow)"

definition enforceHandLimit :: "player \<Rightarrow> player" where
  "enforceHandLimit p = p\<lparr>pendingDiscard := max 0 (int (length (hand p)) - MAX_HAND_SIZE)\<rparr>"

fun firstEmptySlot_from :: "nat \<Rightarrow> 'a option list \<Rightarrow> int" where
  "firstEmptySlot_from i [] = - 1"
| "firstEmptySlot_from i (x # xs) = (if x = None then int i else firstEmptySlot_from (Suc i) xs)"

definition firstEmptySlot :: "'a option list \<Rightarrow> int" where
  "firstEmptySlot arr = firstEmptySlot_from 0 arr"

definition new_player :: player where
  "new_player =
     \<lparr>lp = 8000, deck = buildStartingDeck, hand = [], constructs = [None, None, None],
      monsters = [None, None, None], summoned = False, experienceTokens = 0, pendingDiscard = 0\<rparr>"

definition initial_state :: game_state where
  "initial_state =
     \<lparr>status = ''active'', currentPlayer = 1, winner = None,
      mulligan_phase = False, mulligan_done = (True, True),
      player1 = drawCards new_player STARTING_HAND_SIZE False,
      player2 = drawCards new_player STARTING_HAND_SIZE False\<rparr>"

subsection \<open>Stacks into monsters\<close>

text \<open>\<open>makeConstructStackFromCard\<close> reads \<open>type\<close> and \<open>constructId\<close>: KeyError on a spell card.\<close>

fun makeConstructStackFromCard :: "card \<Rightarrow> construct_stack option" where
  "makeConstructStackFromCard (ItemCard t cid nm sh r) =
     Some \<lparr>stack_type = t, stack_constructId = cid, cards = [ItemCard t cid nm sh r]\<rparr>"
| "makeConstructStackFromCard (SpellCard sid) = None"

definition buildMonster :: "construct_stack \<Rightarrow> construct_stack \<Rightarrow> monster option" where
  "buildMonster pred_stack out_stack =
     do {
       let rho = table_get TRUE_VALIDITY_items (stack_constructId pred_stack) (stack_constructId out_stack) (1 / 10);
       let bwd = table_get ADVERSE_IMPACT_BWD_items (stack_constructId pred_stack) (stack_constructId out_stack) (3 / 10);
       let stars = adverseImpactStarsFromBwd bwd;
       aP \<leftarrow> alphaFromStack (Some pred_stack);
       aO \<leftarrow> alphaFromStack (Some out_stack);
       Some (refreshMonsterStats
         \<lparr>predId = stack_constructId pred_stack, outId = stack_constructId out_stack,
          predAlpha = aP, outAlpha = aO, rTrue = rho,
          adverseImpact = bwd, adverseStars = stars, requiresJobRelevance = (stars \<le> 3),
          rObs = 0, baseAtk = 0, atk = 0, baseN = 50, m_n = 50, m_power = 1 / 10,
          attacksMade = 0, maxAttacks = 1, summoningSick = True,
          hasJobRelevance = False, hasImputation = False, hasPHacking = False,
          hasPracticeEffect = False, itemLeakageApplied = False, correctionApplied = False,
          rangeRestrictionStacks = 0, validityMultiplier = 1, isMeta = False\<rparr>)
     }"

text \<open>\<open>buildMetaMonster\<close> divides by \<open>len(monsters)\<close>: ZeroDivisionError on the empty list.\<close>

definition buildMetaMonster :: "monster list \<Rightarrow> monster option" where
  "buildMetaMonster ms =
     (if ms = [] then None
      else
        let mean_r = (\<Sum>m\<leftarrow>ms. \<bar>rObs m\<bar>) / real (length ms);
            meta_r_true = clamp (mean_r * (135 / 100)) (35 / 100) (95 / 100);
            combined_n = (\<Sum>m\<leftarrow>ms. baseN m)
        in Some
         \<lparr>predId = ''META'', outId = ''META'',
          predAlpha = 99 / 100, outAlpha = 99 / 100, rTrue = meta_r_true,
          adverseImpact = 0, adverseStars = 5, requiresJobRelevance = False,
          rObs = meta_r_true, baseAtk = py_round (\<bar>meta_r_true\<bar> * 10000),
          atk = py_round (\<bar>meta_r_true\<bar> * 10000), baseN = combined_n, m_n = combined_n,
          m_power = clamp (9 / 10 + real_of_int combined_n / 1000) (9 / 10) (99 / 100),
          attacksMade = 0, maxAttacks = 1, summoningSick = False,
          hasJobRelevance = False, hasImputation = False, hasPHacking = False,
          hasPracticeEffect = False, itemLeakageApplied = False, correctionApplied = False,
          rangeRestrictionStacks = 0, validityMultiplier = 1, isMeta = True\<rparr>)"

text \<open>
  \<open>all(x[key] == m[0][key] and x[key] != "META" for x in m)\<close>: \<open>all\<close> stops at the first
  entry that fails; reading a key of an empty slot (\<open>None\<close>) before that raises TypeError.
\<close>

fun all_same :: "(monster \<Rightarrow> string) \<Rightarrow> string \<Rightarrow> monster option list \<Rightarrow> bool option" where
  "all_same key v [] = Some True"
| "all_same key v (None # xs) = None"
| "all_same key v (Some x # xs) =
     (if key x = v \<and> key x \<noteq> ''META'' then all_same key v xs else Some False)"

text \<open>
  \<open>localCanMeta\<close>: \<open>m[0] and m[1] and m[2]\<close> reads the slots from the left and stops at
  the first empty one; a read past the end of the list raises IndexError.
\<close>

definition localCanMeta :: "player \<Rightarrow> bool option" where
  "localCanMeta p =
     (let m = monsters p in
      do {
        m0 \<leftarrow> py_get m 0;
        case m0 of None \<Rightarrow> Some False | Some x0 \<Rightarrow>
        do {
          m1 \<leftarrow> py_get m 1;
          case m1 of None \<Rightarrow> Some False | Some x1 \<Rightarrow>
          do {
            m2 \<leftarrow> py_get m 2;
            case m2 of None \<Rightarrow> Some False | Some x2 \<Rightarrow>
            do {
              same_pred \<leftarrow> all_same predId (predId x0) m;
              same_out \<leftarrow> all_same outId (outId x0) m;
              Some (same_pred \<or> same_out)
            }
          }
        }
      })"

definition canMonsterAttack :: "monster option \<Rightarrow> bool" where
  "canMonsterAttack monster =
     (case monster of
        None \<Rightarrow> False
      | Some m \<Rightarrow>
          if summoningSick m \<or> maxAttacks m \<le> attacksMade m then False
          else if requiresJobRelevance m \<and> \<not> hasJobRelevance m then False
          else True)"

subsection \<open>Actions\<close>

text \<open>
  The action dictionaries, by their \<open>type\<close>: \<open>DiscardCard hand_index\<close>,
  \<open>PlaceCard hand_index slot\<close>, \<open>PlaySpell hand_index target_owner target_type target_slot\<close>,
  \<open>Summon pred_slot out_slot replace_monster_slot\<close> (the last key may be absent),
  \<open>Attack attacker_slot target_type target_slot\<close> (\<open>target_slot\<close> is \<open>None\<close> for an
  attack on the life points).
\<close>

datatype action =
    EndTurn
  | Meta
  | ExperienceDraw
  | DiscardCard int
  | PlaceCard int int
  | PlaySpell int string string int
  | Summon int int "int option"
  | Attack int string "int option"

subsection \<open>Legal actions\<close>

text \<open>The body of \<open>for slot in range(3)\<close> for the item card at hand index \<open>h\<close>.\<close>

definition place_move :: "player \<Rightarrow> nat \<Rightarrow> card \<Rightarrow> nat \<Rightarrow> action list option" where
  "place_move p h cd slot =
     do {
       stack \<leftarrow> py_get (constructs p) (int slot);
       Some (case stack of
               None \<Rightarrow> [PlaceCard (int h) (int slot)]
             | Some st \<Rightarrow>
                 if stack_constructId st \<noteq> card_constructId cd then []
                 else if 3 \<le> length (cards st) then []
                 else [PlaceCard (int h) (int slot)])
     }"

text \<open>\<open>for ts, x in enumerate(arr): if x is not None: moves.append(play_spell ...)\<close>\<close>

definition target_moves :: "nat \<Rightarrow> string \<Rightarrow> string \<Rightarrow> 'a option list \<Rightarrow> action list" where
  "target_moves h owner ttype arr =
     concat (map (\<lambda>(ts, x). if x \<noteq> None then [PlaySpell (int h) owner ttype (int ts)] else [])
                 (enumerate 0 arr))"

definition card_moves :: "player \<Rightarrow> player \<Rightarrow> nat \<Rightarrow> card \<Rightarrow> action list option" where
  "card_moves p opp h cd =
     (case cd of
        ItemCard t cid nm sh r \<Rightarrow> map_option concat (those (map (place_move p h cd) [0..<3]))
      | SpellCard cid \<Rightarrow>
          Some ((if cid \<in> TARGETING_MONSTER_SPELLS
                 then target_moves h ''me'' ''monster'' (monsters p) @
                      target_moves h ''opp'' ''monster'' (monsters opp)
                 else []) @
                (if cid \<in> TARGETING_CONSTRUCT_SPELLS
                 then target_moves h ''me'' ''construct'' (constructs p) @
                      target_moves h ''opp'' ''construct'' (constructs opp)
                 else [])))"

text \<open>\<open>for r in range(3): if p["monsters"][r] is not None: ...\<close>\<close>

definition replace_moves :: "player \<Rightarrow> nat \<Rightarrow> nat \<Rightarrow> action list option" where
  "replace_moves p pred_slot out_slot =
     map_option concat (those (map
       (\<lambda>r. map_option
               (\<lambda>m. if m \<noteq> None then [Summon (int pred_slot) (int out_slot) (Some (int r))] else [])
               (py_get (monsters p) (int r)))
       [0..<3]))"

definition summon_moves :: "player \<Rightarrow> action list option" where
  "summon_moves p =
     (if summoned p then Some []
      else
        let open_slot = firstEmptySlot (monsters p)
        in map_option concat (those (map
             (\<lambda>(pred_slot, out_slot).
                 if open_slot \<noteq> - 1 then Some [Summon (int pred_slot) (int out_slot) None]
                 else replace_moves p pred_slot out_slot)
             (List.product [0..<3] [0..<3]))))"

definition attack_moves :: "player \<Rightarrow> player \<Rightarrow> action list" where
  "attack_moves p opp =
     (let opponent_has_monsters = list_ex (\<lambda>m. m \<noteq> None) (monsters opp)
      in concat (map
           (\<lambda>(a, m).
               if \<not> canMonsterAttack m then []
               else (if \<not> opponent_has_monsters then [Attack (int a) ''lp'' None] else []) @
                    concat (map (\<lambda>(t, d). if d \<noteq> None then [Attack (int a) ''monster'' (Some (int t))] else [])
                                (enumerate 0 (monsters opp))))
           (enumerate 0 (monsters p))))"

definition legal_actions :: "game_state \<Rightarrow> action list option" where
  "legal_actions s =
     (if status s = ''finished'' then Some []
      else
        do {
          p \<leftarrow> get_player s (currentPlayer s);
          if 0 < pendingDiscard p
          then Some (map (\<lambda>i. DiscardCard (int i)) [0..<length (hand p)])
          else
            do {
              opp \<leftarrow> get_player s (oppid (currentPlayer s));
              hand_moves \<leftarrow> map_option concat
                 (those (map (\<lambda>(h, cd). card_moves p opp h cd) (enumerate 0 (hand p))));
              summons \<leftarrow> summon_moves p;
              can_meta \<leftarrow> localCanMeta p;
              Some (hand_moves @
                    (if EXPERIENCE_MISS_THRESHOLD \<le> experienceTokens p \<and> 0 < length (deck p)
                     then [ExperienceDraw] else []) @
                    summons @
                    (if can_meta then [Meta] else []) @
                    attack_moves p opp @
                    [EndTurn])
            }
        })"

subsection \<open>Transitions\<close>

definition mark_game_over :: "game_state \<Rightarrow> game_state" where
  "mark_game_over s =
     (if lp (player1 s) \<le> 0 \<or> lp (player2 s) \<le> 0
      then s\<lparr>status := ''finished'', winner := Some (if 0 < lp (player1 s) then 1 else 2)\<rparr>
      else s)"

text \<open>
  The branches of \<open>next_state\<close>, one definition for each \<open>type\<close>. A branch takes the two
  player dictionaries \<open>me\<close> and \<open>opp\<close> and returns them as the branch leaves them.
  \<open>place_card\<close> alone can return early, before \<open>_mark_game_over\<close>: its result says
  which way it left (\<open>Inl\<close>: the early return).
\<close>

definition apply_place_card :: "player \<Rightarrow> int \<Rightarrow> int \<Rightarrow> (unit + player) option" where
  "apply_place_card me hand_index slot =
     do {
       cd \<leftarrow> py_get (hand me) hand_index;
       if \<not> isItem cd then Some (Inl ())
       else
         do {
           (placed, hand') \<leftarrow> py_pop (hand me) hand_index;
           cur \<leftarrow> py_get (constructs me) slot;
           stack' \<leftarrow> (case cur of
                        None \<Rightarrow> makeConstructStackFromCard placed
                      | Some st \<Rightarrow> Some (st\<lparr>cards := cards st @ [placed]\<rparr>));
           constructs' \<leftarrow> py_set (constructs me) slot (Some stack');
           Some (Inr (me\<lparr>hand := hand', constructs := constructs'\<rparr>))
         }
     }"

definition apply_discard_card :: "player \<Rightarrow> int \<Rightarrow> player" where
  "apply_discard_card me hand_index =
     (if 0 \<le> hand_index \<and> hand_index < int (length (hand me))
      then me\<lparr>hand := take (nat hand_index) (hand me) @ drop (Suc (nat hand_index)) (hand me),
               pendingDiscard := max 0 (pendingDiscard me - 1)\<rparr>
      else me)"

definition apply_experience_draw :: "player \<Rightarrow> player" where
  "apply_experience_draw me =
     enforceHandLimit
       (drawCards (me\<lparr>experienceTokens := experienceTokens me - EXPERIENCE_MISS_THRESHOLD\<rparr>)
          EXPERIENCE_DRAW_COUNT True)"

definition apply_summon :: "player \<Rightarrow> int \<Rightarrow> int \<Rightarrow> int option \<Rightarrow> player option" where
  "apply_summon me pred_slot out_slot replace_monster_slot =
     do {
       pred \<leftarrow> py_get (constructs me) pred_slot;
       out \<leftarrow> py_get (constructs me) out_slot;
       case (pred, out) of
         (Some pr, Some ou) \<Rightarrow>
           if stack_type pr = ''predictor'' \<and> stack_type ou = ''outcome'' \<and> pred_slot \<noteq> out_slot
           then
             do {
               monster \<leftarrow> buildMonster pr ou;
               c1 \<leftarrow> py_set (constructs me) pred_slot None;
               c2 \<leftarrow> py_set c1 out_slot None;
               let first_empty = firstEmptySlot (monsters me);
               let mslot = (if first_empty = - 1
                            then (case replace_monster_slot of None \<Rightarrow> 0 | Some r \<Rightarrow> r)
                            else first_empty);
               ms \<leftarrow> py_set (monsters me) mslot (Some monster);
               Some (me\<lparr>constructs := c2, monsters := ms, summoned := True\<rparr>)
             }
           else Some me
       | _ \<Rightarrow> Some me
     }"

text \<open>
  The \<open>if/elif\<close> chain of \<open>play_spell\<close> on a target that is present, read for a target
  taken from a \<open>monsters\<close> list (\<open>target_type\<close> is not \<open>"construct"\<close>). The result is the
  new content of the target's slot: \<open>None\<close> where the code writes \<open>arr[target_slot] = None\<close>.
\<close>

definition spell_on_monster :: "string \<Rightarrow> string \<Rightarrow> bool \<Rightarrow> monster \<Rightarrow> monster option" where
  "spell_on_monster cid target_type owner_is_me target =
     (if cid = ''sample_size'' \<and> target_type = ''monster''
        then Some (refreshMonsterStats (target\<lparr>m_n := clamp (m_n target + 150) 50 420\<rparr>))
      else if cid = ''job_relevance'' \<and> target_type = ''monster'' \<and> owner_is_me
        then Some (target\<lparr>hasJobRelevance := True\<rparr>)
      else if cid = ''imputation'' \<and> target_type = ''monster'' \<and> owner_is_me
        then Some (target\<lparr>hasImputation := True\<rparr>)
      else if cid = ''p_hacking'' \<and> target_type = ''monster'' \<and> owner_is_me
        then Some (target\<lparr>hasPHacking := True\<rparr>)
      else if cid = ''practice_effect'' \<and> target_type = ''monster''
        then Some (target\<lparr>hasPracticeEffect := True\<rparr>)
      else if cid = ''missing_data''
        then (if target_type = ''monster'' \<and> hasImputation target
              then Some (target\<lparr>hasImputation := False\<rparr>)
              else None)
      else if cid = ''range_restrict'' \<and> target_type = ''monster'' \<and> \<not> owner_is_me
        then Some (refreshMonsterStats
                     (target\<lparr>rangeRestrictionStacks := max 0 (rangeRestrictionStacks target) + 1\<rparr>))
      else if cid = ''item_leakage'' \<and> target_type = ''monster'' \<and> \<not> owner_is_me
        then Some (refreshMonsterStats (target\<lparr>itemLeakageApplied := True\<rparr>))
      else if cid = ''correction'' \<and> target_type = ''monster'' \<and> owner_is_me
        then Some (refreshMonsterStats (target\<lparr>correctionApplied := True, rangeRestrictionStacks := 0\<rparr>))
      else if cid = ''bootstrapping'' \<and> target_type = ''monster'' \<and> owner_is_me
        then Some (refreshMonsterStats (target\<lparr>baseN := baseN target + 50, m_n := m_n target + 50\<rparr>))
      else if cid = ''criterion_contam'' \<and> target_type = ''monster'' \<and> \<not> owner_is_me
        then Some (refreshMonsterStats
                     (target\<lparr>m_n := max 1 (m_n target div 2), baseN := max 1 (baseN target div 2)\<rparr>))
      else Some target)"

text \<open>
  The same chain read for a target taken from a \<open>constructs\<close> list (\<open>target_type\<close> is
  \<open>"construct"\<close>, so every branch that asks for \<open>"monster"\<close> is skipped). The outer
  \<open>None\<close> is the IndexError of \<open>target["cards"][-1]\<close> on a stack with no cards.
\<close>

definition spell_on_construct :: "string \<Rightarrow> bool \<Rightarrow> construct_stack \<Rightarrow> construct_stack option option" where
  "spell_on_construct cid owner_is_me target =
     (if cid = ''missing_data'' then Some None
      else if cid = ''item_analysis'' \<and> owner_is_me \<and> length (cards target) < 3
        then (if cards target = [] then None
              else Some (Some (target\<lparr>cards := cards target @ [last (cards target)]\<rparr>)))
      else if cid = ''construct_drift'' \<and> \<not> owner_is_me
        then (if 1 < length (cards target)
              then Some (Some (target\<lparr>cards := butlast (cards target)\<rparr>))
              else Some None)
      else Some (Some target))"

text \<open>\<open>cid = card["id"]\<close>: KeyError on an item card.\<close>

fun spell_id :: "card \<Rightarrow> string option" where
  "spell_id (SpellCard sid) = Some sid"
| "spell_id (ItemCard t cid nm sh r) = None"

definition apply_play_spell ::
    "player \<Rightarrow> player \<Rightarrow> int \<Rightarrow> string \<Rightarrow> string \<Rightarrow> int \<Rightarrow> (player \<times> player) option" where
  "apply_play_spell me opp hand_index target_owner target_type target_slot =
     do {
       (cd, hand') \<leftarrow> py_pop (hand me) hand_index;
       let me1 = me\<lparr>hand := hand'\<rparr>;
       let owner_is_me = (target_owner = ''me'');
       let owner = (if owner_is_me then me1 else opp);
       if target_type = ''construct''
       then
         do {
           target \<leftarrow> py_get (constructs owner) target_slot;
           cid \<leftarrow> spell_id cd;
           arr \<leftarrow> (case target of
                     None \<Rightarrow> Some (constructs owner)
                   | Some st \<Rightarrow>
                       do {
                         r \<leftarrow> spell_on_construct cid owner_is_me st;
                         py_set (constructs owner) target_slot r
                       });
           Some (if owner_is_me then (me1\<lparr>constructs := arr\<rparr>, opp)
                 else (me1, opp\<lparr>constructs := arr\<rparr>))
         }
       else
         do {
           target \<leftarrow> py_get (monsters owner) target_slot;
           cid \<leftarrow> spell_id cd;
           arr \<leftarrow> (case target of
                     None \<Rightarrow> Some (monsters owner)
                   | Some m \<Rightarrow> py_set (monsters owner) target_slot
                                 (spell_on_monster cid target_type owner_is_me m));
           Some (if owner_is_me then (me1\<lparr>monsters := arr\<rparr>, opp)
                 else (me1, opp\<lparr>monsters := arr\<rparr>))
         }
     }"

text \<open>
  \<open>attack\<close>. \<open>opp["monsters"][action["target_slot"]]\<close> with \<open>target_slot\<close> \<open>None\<close>
  raises TypeError.
\<close>

definition apply_attack ::
    "player \<Rightarrow> player \<Rightarrow> int \<Rightarrow> string \<Rightarrow> int option \<Rightarrow> (player \<times> player) option" where
  "apply_attack me opp attacker_slot target_type target_slot =
     do {
       attacker \<leftarrow> py_get (monsters me) attacker_slot;
       case attacker of
         None \<Rightarrow> Some (me, opp)
       | Some a0 \<Rightarrow>
           do {
             let att = a0\<lparr>attacksMade := attacksMade a0 + 1\<rparr>;
             ms1 \<leftarrow> py_set (monsters me) attacker_slot (Some att);
             let me1 = me\<lparr>monsters := ms1\<rparr>;
             (me2, opp2) \<leftarrow>
               (if target_type = ''lp''
                then Some (me1, opp\<lparr>lp := max 0 (lp opp - atk att)\<rparr>)
                else
                  do {
                    t \<leftarrow> target_slot;
                    defender \<leftarrow> py_get (monsters opp) t;
                    case defender of
                      None \<Rightarrow> Some (me1, opp)
                    | Some d \<Rightarrow>
                        if atk d < atk att then
                          do {
                            oms \<leftarrow> py_set (monsters opp) t None;
                            Some (me1, opp\<lparr>lp := max 0 (lp opp - (atk att - atk d)), monsters := oms\<rparr>)
                          }
                        else if atk att < atk d then
                          do {
                            mms \<leftarrow> py_set (monsters me1) attacker_slot None;
                            Some (me1\<lparr>lp := max 0 (lp me1 - (atk d - atk att)), monsters := mms\<rparr>, opp)
                          }
                        else
                          do {
                            mms \<leftarrow> py_set (monsters me1) attacker_slot None;
                            oms \<leftarrow> py_set (monsters opp) t None;
                            Some (me1\<lparr>monsters := mms\<rparr>, opp\<lparr>monsters := oms\<rparr>)
                          }
                  });
             cur \<leftarrow> py_get (monsters me2) attacker_slot;
             case cur of
               None \<Rightarrow> Some (me2, opp2)
             | Some c \<Rightarrow>
                 if hasPHacking c then
                   do {
                     mms \<leftarrow> py_set (monsters me2) attacker_slot None;
                     Some (me2\<lparr>monsters := mms\<rparr>, opp2)
                   }
                 else Some (me2, opp2)
           }
     }"

definition apply_meta :: "player \<Rightarrow> player option" where
  "apply_meta me =
     do {
       can_meta \<leftarrow> localCanMeta me;
       if can_meta then
         do {
           titan \<leftarrow> buildMetaMonster (concat (map (\<lambda>m. case m of None \<Rightarrow> [] | Some x \<Rightarrow> [x]) (monsters me)));
           Some (me\<lparr>monsters := [Some titan, None, None]\<rparr>)
         }
       else Some me
     }"

text \<open>\<open>end_turn\<close>: the two loops over the monsters of the player who ends and of the next player.\<close>

definition end_turn_own :: "monster \<Rightarrow> monster" where
  "end_turn_own m = refreshMonsterStats (m\<lparr>correctionApplied := False, itemLeakageApplied := False\<rparr>)"

definition end_turn_next :: "monster \<Rightarrow> monster" where
  "end_turn_next m = refreshMonsterStats (m\<lparr>summoningSick := False, attacksMade := 0, maxAttacks := 1\<rparr>)"

definition apply_end_turn :: "player \<Rightarrow> player \<Rightarrow> player \<times> player" where
  "apply_end_turn me opp =
     (let me1 = me\<lparr>monsters := map (map_option end_turn_own) (monsters me)\<rparr>;
          np1 = enforceHandLimit (drawCards (opp\<lparr>summoned := False\<rparr>) 1 True);
          np2 = np1\<lparr>monsters := map (map_option end_turn_next) (monsters np1)\<rparr>
      in (me1, np2))"

text \<open>
  \<open>next_state\<close>. The input is deep-copied first, so the result for a finished game is the
  input itself. Every branch but the early return of \<open>place_card\<close> ends in
  \<open>_mark_game_over\<close>.
\<close>

definition next_state :: "game_state \<Rightarrow> action \<Rightarrow> game_state option" where
  "next_state s action =
     (if status s = ''finished'' then Some s
      else
        do {
          let pid = currentPlayer s;
          me \<leftarrow> get_player s pid;
          opp \<leftarrow> get_player s (oppid pid);
          case action of
            PlaceCard hand_index slot \<Rightarrow>
              do {
                r \<leftarrow> apply_place_card me hand_index slot;
                Some (case r of Inl u \<Rightarrow> s | Inr me' \<Rightarrow> mark_game_over (put_players s pid me' opp))
              }
          | DiscardCard hand_index \<Rightarrow>
              Some (mark_game_over (put_players s pid (apply_discard_card me hand_index) opp))
          | ExperienceDraw \<Rightarrow>
              Some (mark_game_over (put_players s pid (apply_experience_draw me) opp))
          | Summon pred_slot out_slot replace_monster_slot \<Rightarrow>
              do {
                me' \<leftarrow> apply_summon me pred_slot out_slot replace_monster_slot;
                Some (mark_game_over (put_players s pid me' opp))
              }
          | PlaySpell hand_index target_owner target_type target_slot \<Rightarrow>
              do {
                (me', opp') \<leftarrow> apply_play_spell me opp hand_index target_owner target_type target_slot;
                Some (mark_game_over (put_players s pid me' opp'))
              }
          | Attack attacker_slot target_type target_slot \<Rightarrow>
              do {
                (me', opp') \<leftarrow> apply_attack me opp attacker_slot target_type target_slot;
                Some (mark_game_over (put_players s pid me' opp'))
              }
          | Meta \<Rightarrow>
              do {
                me' \<leftarrow> apply_meta me;
                Some (mark_game_over (put_players s pid me' opp))
              }
          | EndTurn \<Rightarrow>
              (case apply_end_turn me opp of
                 (me', np) \<Rightarrow>
                   Some (mark_game_over (put_players (s\<lparr>currentPlayer := oppid pid\<rparr>) pid me' np)))
        })"

definition is_terminal :: "game_state \<Rightarrow> bool" where
  "is_terminal s = (status s = ''finished'')"

definition terminal_value :: "game_state \<Rightarrow> int \<Rightarrow> int" where
  "terminal_value s pl =
     (if \<not> is_terminal s then 0
      else case winner s of None \<Rightarrow> 0 | Some w \<Rightarrow> if w = pl then 1 else - 1)"

subsection \<open>Legality of one action, and small states for worked examples\<close>

text \<open>\<open>a in legal_actions(s)\<close>, false when the enumerator raises.\<close>

definition is_legal :: "game_state \<Rightarrow> action \<Rightarrow> bool" where
  "is_legal s a = (case legal_actions s of None \<Rightarrow> False | Some acts \<Rightarrow> a \<in> set acts)"

text \<open>
  A player with an empty hand and deck and an empty board, and a state of two given players
  with player 1 to move: the examples below fill in what they need.
\<close>

definition cog_card :: card where
  "cog_card = ItemCard ''predictor'' ''cog_ability'' ''Cognitive Ability'' ''COG'' (65 / 100)"

definition bare_player :: player where
  "bare_player =
     \<lparr>lp = 8000, deck = [], hand = [], constructs = [None, None, None],
      monsters = [None, None, None], summoned = False, experienceTokens = 0, pendingDiscard = 0\<rparr>"

definition bare_state :: "player \<Rightarrow> player \<Rightarrow> game_state" where
  "bare_state p1 p2 =
     \<lparr>status = ''active'', currentPlayer = 1, winner = None,
      mulligan_phase = False, mulligan_done = (True, True), player1 = p1, player2 = p2\<rparr>"

definition two_card_stack_player :: player where
  "two_card_stack_player =
     bare_player
       \<lparr>hand := [SpellCard ''missing_data''],
        constructs := [Some \<lparr>stack_type = ''predictor'', stack_constructId = ''cog_ability'',
                            cards = [cog_card, cog_card]\<rparr>, None, None]\<rparr>"

definition two_card_stack_state :: game_state where
  "two_card_stack_state = bare_state two_card_stack_player bare_player"

subsection \<open>Range restriction: one cast, and states for worked examples\<close>





subsection \<open>Sequences of legal actions, and hands at the cap\<close>

text \<open>
  \<open>play s as\<close> applies the actions \<open>as\<close> in order, each of which has to be legal in
  the state it is applied to.
\<close>

fun play :: "game_state \<Rightarrow> action list \<Rightarrow> game_state option" where
  "play s [] = Some s"
| "play s (a # as) =
     (if is_legal s a then Option.bind (next_state s a) (\<lambda>s'. play s' as) else None)"

text \<open>
  Player 1 with twelve cards in hand, three in the deck and four experience tokens; and with
  thirteen cards in hand and one discard pending (as at the start of a turn).
\<close>

definition token_player :: player where
  "token_player =
     bare_player\<lparr>deck := replicate 3 (SpellCard ''sample_size''),
                  hand := replicate 12 (SpellCard ''sample_size''), experienceTokens := 4\<rparr>"

definition token_state :: game_state where
  "token_state = bare_state token_player bare_player"

definition thirteen_player :: player where
  "thirteen_player = bare_player\<lparr>hand := replicate 13 (SpellCard ''sample_size''), pendingDiscard := 1\<rparr>"

definition thirteen_state :: game_state where
  "thirteen_state = bare_state thirteen_player bare_player"

subsection \<open>An opening in which both players only end their turns and discard\<close>

text \<open>
  The deck is not shuffled and \<open>drawCards\<close> pops from its end, so the cards come in the
  order \<open>draw_order\<close>. A player who has drawn \<open>drawn\<close> cards in all and has discarded
  the first card of the hand \<open>discarded\<close> times, on an empty board, is \<open>turn_player\<close>.
  \<open>turn_state k\<close> is the state with player 1 to move after \<open>k\<close> rounds
  \<open>turn_round\<close>, in which each player ends the turn and the other one, who has drawn a
  thirteenth card, discards the first card of the hand. The twenty-fifth card of the draw order
  is the first item card, \<open>ocb_card\<close>.
\<close>

definition draw_order :: "card list" where
  "draw_order = rev buildStartingDeck"

definition turn_player :: "nat \<Rightarrow> nat \<Rightarrow> player" where
  "turn_player drawn discarded =
     bare_player\<lparr>deck := rev (drop drawn draw_order),
                  hand := drop discarded (take drawn draw_order),
                  pendingDiscard := max 0 (int drawn - int discarded - MAX_HAND_SIZE)\<rparr>"

definition turn_state :: "nat \<Rightarrow> game_state" where
  "turn_state k = bare_state (turn_player (12 + k) k) (turn_player (12 + k) k)"

definition turn_round :: "action list" where
  "turn_round = [EndTurn, DiscardCard 0, EndTurn, DiscardCard 0]"

definition ocb_card :: card where
  "ocb_card = ItemCard ''outcome'' ''ocb'' ''OCB'' ''OCB'' (44 / 100)"

subsection \<open>Episodes and matches (train-alphazero)\<close>

text \<open>
  The loops of \<open>self_play_episode\<close> and \<open>play_match\<close>. The tree search, the network and
  the sampling of a move from the search policy are not modelled: \<open>pick move_num state\<close> is
  the action the loop applies at that move (\<open>action_space.actions[action_id]\<close>), \<open>None\<close> when
  the search raises. Any run of the random search is some such \<open>pick\<close>. The loop applies the
  action without asking whether it is legal, as the code does. Of a sample the model keeps the
  player to move and the value label. \<open>int(state["winner"])\<close> raises TypeError on \<open>None\<close>.
  In \<open>play_match\<close> the network of player 1 is \<open>net_a\<close>, that of player 2 \<open>net_b\<close>.
\<close>

function self_play_loop ::
    "(int \<Rightarrow> game_state \<Rightarrow> action option) \<Rightarrow> int \<Rightarrow> game_state \<Rightarrow> int \<Rightarrow> int list \<Rightarrow>
     (game_state \<times> int \<times> int list) option" where
  "self_play_loop pick max_moves state move_num trajectory =
     (if \<not> is_terminal state \<and> move_num < max_moves
      then (case pick move_num state of
              None \<Rightarrow> None
            | Some action \<Rightarrow>
                (case next_state state action of
                   None \<Rightarrow> None
                 | Some state' \<Rightarrow>
                     self_play_loop pick max_moves state' (move_num + 1)
                       (trajectory @ [currentPlayer state])))
      else Some (state, move_num, trajectory))"
  by pat_completeness auto
termination
  by (relation "measure (\<lambda>(pick, max_moves, state, move_num, trajectory). nat (max_moves - move_num))") auto

definition episode_winner :: "game_state \<Rightarrow> int option" where
  "episode_winner state =
     (if is_terminal state then winner state
      else Some (if lp (player2 state) \<le> lp (player1 state) then 1 else 2))"

definition self_play_episode ::
    "(int \<Rightarrow> game_state \<Rightarrow> action option) \<Rightarrow> int \<Rightarrow> ((int \<times> int) list \<times> int) option" where
  "self_play_episode pick max_moves =
     (case self_play_loop pick max_moves initial_state 0 [] of
        None \<Rightarrow> None
      | Some (state, move_num, trajectory) \<Rightarrow>
          (case episode_winner state of
             None \<Rightarrow> None
           | Some w \<Rightarrow> Some (map (\<lambda>p. (p, if p = w then 1 else - 1)) trajectory, w)))"

function match_loop ::
    "(int \<Rightarrow> game_state \<Rightarrow> action option) \<Rightarrow> (int \<Rightarrow> game_state \<Rightarrow> action option) \<Rightarrow>
     int \<Rightarrow> game_state \<Rightarrow> int \<Rightarrow> (game_state \<times> int) option" where
  "match_loop pick_a pick_b max_moves state move_num =
     (if \<not> is_terminal state \<and> move_num < max_moves
      then (case (if currentPlayer state = 1 then pick_a else pick_b) move_num state of
              None \<Rightarrow> None
            | Some action \<Rightarrow>
                (case next_state state action of
                   None \<Rightarrow> None
                 | Some state' \<Rightarrow> match_loop pick_a pick_b max_moves state' (move_num + 1)))
      else Some (state, move_num))"
  by pat_completeness auto
termination
  by (relation "measure (\<lambda>(pick_a, pick_b, max_moves, state, move_num). nat (max_moves - move_num))") auto

definition play_match ::
    "(int \<Rightarrow> game_state \<Rightarrow> action option) \<Rightarrow> (int \<Rightarrow> game_state \<Rightarrow> action option) \<Rightarrow> int \<Rightarrow> int option" where
  "play_match pick_a pick_b max_moves =
     (case match_loop pick_a pick_b max_moves initial_state 0 of
        None \<Rightarrow> None
      | Some (state, move_num) \<Rightarrow> episode_winner state)"

declare self_play_loop.simps [simp del] match_loop.simps [simp del]

subsection \<open>The static action space (train-alphazero)\<close>

text \<open>
  \<open>ActionSpace._action_key\<close> is \<open>json.dumps(action, sort_keys=True, separators=(",", ":"))\<close>.
  The values of an action dictionary are integers, strings and \<open>None\<close>. \<open>json.dumps\<close>
  writes an integer in decimal, \<open>None\<close> as \<open>null\<close>, a string between double quotes with
  the escapes of \<open>ensure_ascii\<close> (a \<open>char\<close> is read as the code point of its number),
  and the items of the dictionary in the order of their keys.
\<close>

datatype json = JInt int | JStr string | JNull

fun action_dict :: "action \<Rightarrow> (string \<times> json) list" where
  "action_dict EndTurn = [(''type'', JStr ''end_turn'')]"
| "action_dict Meta = [(''type'', JStr ''meta'')]"
| "action_dict ExperienceDraw = [(''type'', JStr ''experience_draw'')]"
| "action_dict (DiscardCard h) = [(''type'', JStr ''discard_card''), (''hand_index'', JInt h)]"
| "action_dict (PlaceCard h slot) =
     [(''type'', JStr ''place_card''), (''hand_index'', JInt h), (''slot'', JInt slot)]"
| "action_dict (PlaySpell h owner ttype ts) =
     [(''type'', JStr ''play_spell''), (''hand_index'', JInt h), (''target_owner'', JStr owner),
      (''target_type'', JStr ttype), (''target_slot'', JInt ts)]"
| "action_dict (Summon pred_slot out_slot None) =
     [(''type'', JStr ''summon''), (''pred_slot'', JInt pred_slot), (''out_slot'', JInt out_slot)]"
| "action_dict (Summon pred_slot out_slot (Some r)) =
     [(''type'', JStr ''summon''), (''pred_slot'', JInt pred_slot), (''out_slot'', JInt out_slot),
      (''replace_monster_slot'', JInt r)]"
| "action_dict (Attack a ttype ts) =
     [(''type'', JStr ''attack''), (''attacker_slot'', JInt a), (''target_type'', JStr ttype),
      (''target_slot'', (case ts of None \<Rightarrow> JNull | Some t \<Rightarrow> JInt t))]"

definition digit_char :: "nat \<Rightarrow> char" where
  "digit_char d = ''0123456789abcdef'' ! d"

function show_nat :: "nat \<Rightarrow> string" where
  "show_nat k = (if k < 10 then [digit_char k] else show_nat (k div 10) @ [digit_char (k mod 10)])"
  by pat_completeness auto
termination
  by (relation "measure id") auto

definition show_int :: "int \<Rightarrow> string" where
  "show_int i = (if i < 0 then CHR ''-'' # show_nat (nat (- i)) else show_nat (nat i))"

definition json_escape_char :: "char \<Rightarrow> string" where
  "json_escape_char c =
     (if c = CHR 0x22 then [CHR 0x5C, CHR 0x22]
      else if c = CHR 0x5C then [CHR 0x5C, CHR 0x5C]
      else if c = CHR 0x0A then [CHR 0x5C, CHR ''n'']
      else if c = CHR 0x0D then [CHR 0x5C, CHR ''r'']
      else if c = CHR 0x09 then [CHR 0x5C, CHR ''t'']
      else if c = CHR 0x0C then [CHR 0x5C, CHR ''f'']
      else if c = CHR 0x08 then [CHR 0x5C, CHR ''b'']
      else if (of_char c :: nat) < 32 \<or> 126 < (of_char c :: nat)
        then [CHR 0x5C, CHR ''u'', CHR ''0'', CHR ''0'',
              digit_char (of_char c div 16), digit_char (of_char c mod 16)]
      else [c])"

definition json_string :: "string \<Rightarrow> string" where
  "json_string s = [CHR 0x22] @ concat (map json_escape_char s) @ [CHR 0x22]"

fun json_value :: "json \<Rightarrow> string" where
  "json_value (JInt i) = show_int i"
| "json_value (JStr s) = json_string s"
| "json_value JNull = ''null''"

fun join :: "string \<Rightarrow> string list \<Rightarrow> string" where
  "join sep [] = []"
| "join sep [x] = x"
| "join sep (x # y # ys) = x @ sep @ join sep (y # ys)"

definition json_dumps :: "(string \<times> json) list \<Rightarrow> string" where
  "json_dumps items =
     ''{'' @ join '','' (map (\<lambda>(k, v). json_string k @ '':'' @ json_value v) (sort_key fst items)) @ ''}''"

definition action_key :: "action \<Rightarrow> string" where
  "action_key a = json_dumps (action_dict a)"

text \<open>
  The class \<open>ActionSpace\<close>: the list \<open>actions\<close> and the dictionary \<open>action_to_id\<close>.
  \<open>to_id\<close> raises KeyError (\<open>None\<close>) on a key that is not registered;
  \<open>MCTS._legal_ids\<close> catches that error and leaves the action out.
\<close>

record action_space =
  actions :: "action list"
  action_to_id :: "string \<rightharpoonup> nat"

definition register :: "action_space \<Rightarrow> action \<Rightarrow> action_space" where
  "register sp a =
     (let k = action_key a
      in if action_to_id sp k \<noteq> None then sp
         else sp\<lparr>action_to_id := (action_to_id sp)(k \<mapsto> length (actions sp)),
                 actions := actions sp @ [a]\<rparr>)"

text \<open>
  The calls of \<open>_register\<close> that \<open>_build\<close> makes, in their order: the three actions
  without parameters, one block for every hand index below \<open>MAX_HAND_SIZE\<close>, the summons,
  the attacks.
\<close>

definition hand_block :: "int \<Rightarrow> action list" where
  "hand_block h =
     [DiscardCard h] @
     map (\<lambda>slot. PlaceCard h slot) [0, 1, 2] @
     concat (map (\<lambda>owner.
         concat (map (\<lambda>target_slot.
             [PlaySpell h owner ''monster'' target_slot,
              PlaySpell h owner ''construct'' target_slot]) [0, 1, 2]))
       [''me'', ''opp''])"

definition summon_block :: "action list" where
  "summon_block =
     concat (map (\<lambda>pred_slot.
         concat (map (\<lambda>out_slot.
             [Summon pred_slot out_slot None] @
             map (\<lambda>rep. Summon pred_slot out_slot (Some rep)) [0, 1, 2]) [0, 1, 2]))
       [0, 1, 2])"

definition attack_block :: "action list" where
  "attack_block =
     concat (map (\<lambda>attacker_slot.
         [Attack attacker_slot ''lp'' None] @
         map (\<lambda>target_slot. Attack attacker_slot ''monster'' (Some target_slot)) [0, 1, 2])
       [0, 1, 2])"

definition build_order :: "action list" where
  "build_order =
     [EndTurn, Meta, ExperienceDraw] @
     concat (map hand_block (map int [0..<nat MAX_HAND_SIZE])) @
     summon_block @ attack_block"

definition ActionSpace :: action_space where
  "ActionSpace = foldl register \<lparr>actions = [], action_to_id = Map.empty\<rparr> build_order"

definition to_id :: "action \<Rightarrow> nat option" where
  "to_id a = action_to_id ActionSpace (action_key a)"

definition legal_ids :: "game_state \<Rightarrow> nat list option" where
  "legal_ids s =
     map_option (\<lambda>acts. concat (map (\<lambda>a. case to_id a of None \<Rightarrow> [] | Some i \<Rightarrow> [i]) acts))
       (legal_actions s)"

text \<open>The action descriptors of the schema, for hand indices below \<open>H\<close>.\<close>

fun in_schema :: "int \<Rightarrow> action \<Rightarrow> bool" where
  "in_schema H EndTurn = True"
| "in_schema H Meta = True"
| "in_schema H ExperienceDraw = True"
| "in_schema H (DiscardCard h) = (0 \<le> h \<and> h < H)"
| "in_schema H (PlaceCard h slot) = (0 \<le> h \<and> h < H \<and> slot \<in> {0, 1, 2})"
| "in_schema H (PlaySpell h owner ttype ts) =
     (0 \<le> h \<and> h < H \<and> owner \<in> {''me'', ''opp''} \<and> ttype \<in> {''monster'', ''construct''} \<and>
      ts \<in> {0, 1, 2})"
| "in_schema H (Summon pred_slot out_slot r) =
     (pred_slot \<in> {0, 1, 2} \<and> out_slot \<in> {0, 1, 2} \<and> r \<in> {None, Some 0, Some 1, Some 2})"
| "in_schema H (Attack a ttype ts) =
     (a \<in> {0, 1, 2} \<and>
      (ttype = ''lp'' \<and> ts = None \<or> ttype = ''monster'' \<and> ts \<in> {Some 0, Some 1, Some 2}))"

text \<open>\<open>action.get("hand_index")\<close>: the hand index of an action descriptor that has one.\<close>

fun action_hand_index :: "action \<Rightarrow> int option" where
  "action_hand_index (DiscardCard h) = Some h"
| "action_hand_index (PlaceCard h slot) = Some h"
| "action_hand_index (PlaySpell h owner ttype ts) = Some h"
| "action_hand_index EndTurn = None"
| "action_hand_index Meta = None"
| "action_hand_index ExperienceDraw = None"
| "action_hand_index (Summon pred_slot out_slot r) = None"
| "action_hand_index (Attack a ttype ts) = None"

subsection \<open>Reachable states and well-formed stacks\<close>

text \<open>
  The states of a game: the initial state, and every state that \<open>next_state\<close> returns for
  an action of \<open>legal_actions\<close> from such a state.
\<close>

inductive reachable :: "game_state \<Rightarrow> bool" where
  reachable_init: "reachable initial_state"
| reachable_step:
    "reachable s \<Longrightarrow> legal_actions s = Some acts \<Longrightarrow> a \<in> set acts \<Longrightarrow>
     next_state s a = Some s' \<Longrightarrow> reachable s'"

text \<open>
  The category of a construct id is the \<open>type\<close> entry of \<open>CONSTRUCTS\<close>. A stack is well
  formed when it holds one to three item cards of the stack's own construct id and its type is
  the category of that id. A card is good when, if an item, its type is the category of its
  construct id; the invariant of the game keeps every card of the hands and decks good and every
  stack well formed.
\<close>

definition category :: "string \<Rightarrow> string option" where
  "category cid = map_option c_type (CONSTRUCTS cid)"

definition stack_ok :: "construct_stack \<Rightarrow> bool" where
  "stack_ok st =
     (1 \<le> length (cards st) \<and> length (cards st) \<le> 3 \<and>
      list_all (\<lambda>c. isItem c \<and> card_constructId c = stack_constructId st) (cards st) \<and>
      category (stack_constructId st) = Some (stack_type st))"

fun good_card :: "card \<Rightarrow> bool" where
  "good_card (ItemCard t cid nm sh r) = (category cid = Some t)"
| "good_card (SpellCard sid) = True"

fun slot_ok :: "construct_stack option \<Rightarrow> bool" where
  "slot_ok None = True"
| "slot_ok (Some st) = stack_ok st"

definition player_ok :: "player \<Rightarrow> bool" where
  "player_ok p =
     (list_all good_card (hand p) \<and> list_all good_card (deck p) \<and> list_all slot_ok (constructs p))"

definition state_ok :: "game_state \<Rightarrow> bool" where
  "state_ok s = (player_ok (player1 s) \<and> player_ok (player2 s))"

section \<open>Properties\<close>

subsection \<open>The refresh rule is idempotent\<close>

lemma clamp_idem: "clamp (clamp v lo hi) lo hi = clamp v lo hi"
  by (simp add: clamp_def max_def min_def)

lemma refresh_inputs_kept:
  "\<not> isMeta m \<Longrightarrow>
     refreshed_rObs (refreshMonsterStats m) = refreshed_rObs m \<and>
     effective_atk_base (refreshMonsterStats m) = effective_atk_base m \<and>
     rangeRestrictionStacks (refreshMonsterStats m) = rangeRestrictionStacks m \<and>
     m_n (refreshMonsterStats m) = m_n m \<and>
     isMeta (refreshMonsterStats m) = isMeta m"
  by (simp add: refreshMonsterStats_def refreshed_rObs_def effective_atk_base_def
      effective_multiplier_def Let_def)

lemma refresh_idem_meta:
  "isMeta m \<Longrightarrow> refreshMonsterStats (refreshMonsterStats m) = refreshMonsterStats m"
  by (simp add: refreshMonsterStats_def clamp_idem)

lemma refresh_idem_plain:
  assumes "\<not> isMeta m"
  shows "refreshMonsterStats (refreshMonsterStats m) = refreshMonsterStats m"
proof -
  note k = refresh_inputs_kept [OF assms]
  have "refreshMonsterStats (refreshMonsterStats m) =
          (refreshMonsterStats m)\<lparr>rObs := refreshed_rObs m,
             baseAtk := py_round (\<bar>refreshed_rObs m\<bar> * 10000),
             atk := (halve ^^ nat (max 0 (rangeRestrictionStacks m))) (effective_atk_base m),
             m_power := approxPowerFromROBSandN
               (real_of_int \<bar>(halve ^^ nat (max 0 (rangeRestrictionStacks m))) (effective_atk_base m)\<bar> / 10000)
               (m_n m)\<rparr>"
    using assms k by (subst refreshMonsterStats_def) (simp add: Let_def)
  also have "\<dots> = refreshMonsterStats m"
    using assms by (simp add: refreshMonsterStats_def Let_def)
  finally show ?thesis .
qed

text \<open>
  Claim C6. \<open>refreshMonsterStats\<close> is idempotent: for every monster record, meta or not,
  a second refresh with no field changed in between leaves the record as the first refresh
  made it; in particular \<open>rObs\<close>, \<open>baseAtk\<close>, \<open>atk\<close> and \<open>power\<close> have the same values.
\<close>

theorem refreshMonsterStats_idempotent:
  "refreshMonsterStats (refreshMonsterStats m) = refreshMonsterStats m \<and>
   rObs (refreshMonsterStats (refreshMonsterStats m)) = rObs (refreshMonsterStats m) \<and>
   baseAtk (refreshMonsterStats (refreshMonsterStats m)) = baseAtk (refreshMonsterStats m) \<and>
   atk (refreshMonsterStats (refreshMonsterStats m)) = atk (refreshMonsterStats m) \<and>
   m_power (refreshMonsterStats (refreshMonsterStats m)) = m_power (refreshMonsterStats m)"
proof -
  have "refreshMonsterStats (refreshMonsterStats m) = refreshMonsterStats m"
    by (cases "isMeta m") (simp_all add: refresh_idem_meta refresh_idem_plain)
  then show ?thesis by simp
qed

subsection \<open>Players, lists and option-valued loops\<close>

lemma get_player_cases:
  "get_player s pid = Some p \<Longrightarrow> (pid = 1 \<and> p = player1 s) \<or> (pid = 2 \<and> p = player2 s)"
  by (auto simp: get_player_def split: if_splits)

lemma get_player_oppid:
  "get_player s pid = Some p \<Longrightarrow> \<exists>q. get_player s (oppid pid) = Some q"
  by (auto simp: get_player_def oppid_def split: if_splits)

lemma mark_game_over_players [simp]:
  "player1 (mark_game_over s) = player1 s" "player2 (mark_game_over s) = player2 s"
  "currentPlayer (mark_game_over s) = currentPlayer s"
  by (simp_all add: mark_game_over_def)

lemma get_player_mark [simp]: "get_player (mark_game_over s) pid = get_player s pid"
  by (simp add: get_player_def)

lemma get_player_put:
  "pid = 1 \<or> pid = 2 \<Longrightarrow> get_player (put_players s pid me opp) pid = Some me"
  "pid = 1 \<or> pid = 2 \<Longrightarrow> get_player (put_players s pid me opp) (oppid pid) = Some opp"
  by (auto simp: get_player_def put_players_def oppid_def)

lemma get_player_put_cp:
  "pid = 1 \<or> pid = 2 \<Longrightarrow> get_player (put_players (s\<lparr>currentPlayer := c\<rparr>) pid me opp) pid = Some me"
  "pid = 1 \<or> pid = 2 \<Longrightarrow> get_player (put_players (s\<lparr>currentPlayer := c\<rparr>) pid me opp) (oppid pid) = Some opp"
  by (auto simp: get_player_def put_players_def oppid_def)

lemma currentPlayer_put [simp]: "currentPlayer (put_players s pid me opp) = currentPlayer s"
  by (simp add: put_players_def)

lemma get_player_valid: "get_player s pid = Some p \<Longrightarrow> pid = 1 \<or> pid = 2"
  by (auto simp: get_player_def split: if_splits)

lemma those_Some: "those xs = Some ys \<Longrightarrow> xs = map Some ys"
  by (induction xs arbitrary: ys) (auto split: option.splits)

lemma those_concat_mem:
  assumes "those (map f xs) = Some ys" "a \<in> set (concat ys)"
  shows "\<exists>x\<in>set xs. \<exists>zs. f x = Some zs \<and> a \<in> set zs"
proof -
  from assms(2) obtain zs where zs: "zs \<in> set ys" "a \<in> set zs" by auto
  have "map f xs = map Some ys" using those_Some [OF assms(1)] .
  then have "Some zs \<in> set (map f xs)" using zs(1) by simp
  then obtain x where "x \<in> set xs" "f x = Some zs" by auto
  with zs(2) show ?thesis by blast
qed

lemma drawCards_overflow:
  "drawCards p k True =
     p\<lparr>hand := hand p @ take k (rev (deck p)), deck := take (length (deck p) - k) (deck p)\<rparr>"
proof (induction k arbitrary: p)
  case 0
  then show ?case by simp
next
  case (Suc k)
  show ?case
  proof (cases "deck p = []")
    case True
    with Suc show ?thesis by simp
  next
    case False
    then obtain ys y where d: "deck p = ys @ [y]"
      by (metis append_butlast_last_id)
    show ?thesis
      using Suc [of "p\<lparr>hand := hand p @ [last (deck p)], deck := butlast (deck p)\<rparr>"] d
      by simp
  qed
qed

lemma next_state_experience_draw:
  assumes "status s \<noteq> ''finished''" "get_player s (currentPlayer s) = Some me"
  shows "next_state s ExperienceDraw =
     Some (mark_game_over (put_players s (currentPlayer s) (apply_experience_draw me) (the (get_player s (oppid (currentPlayer s))))))"
  using assms get_player_oppid[OF assms(2)]
  by (auto simp: next_state_def)

lemma no_exp_in_target_moves: "ExperienceDraw \<notin> set (target_moves h ow tt arr)"
  by (auto simp: target_moves_def)

lemma no_exp_in_card_moves: "card_moves p opp h cd = Some zs \<Longrightarrow> ExperienceDraw \<notin> set zs"
  by (cases cd) (auto simp: card_moves_def no_exp_in_target_moves place_move_def
      dest!: those_concat_mem split: option.splits if_splits Option.bind_splits)

lemma no_exp_in_summon_moves: "summon_moves p = Some zs \<Longrightarrow> ExperienceDraw \<notin> set zs"
  by (auto simp: summon_moves_def replace_moves_def Let_def
      dest!: those_concat_mem split: option.splits if_splits Option.bind_splits)

lemma no_exp_in_attack_moves: "ExperienceDraw \<notin> set (attack_moves p opp)"
  by (auto simp: attack_moves_def Let_def split: if_splits)

lemma experience_draw_guard:
  assumes "status s \<noteq> ''finished''" "get_player s (currentPlayer s) = Some me"
    "legal_actions s = Some acts"
  shows "(ExperienceDraw \<in> set acts) =
         (pendingDiscard me \<le> 0 \<and> EXPERIENCE_MISS_THRESHOLD \<le> experienceTokens me \<and> deck me \<noteq> [])"
  using assms get_player_oppid[OF assms(2)]
  by (auto simp: legal_actions_def no_exp_in_attack_moves
      dest!: those_concat_mem no_exp_in_card_moves no_exp_in_summon_moves
      split: if_splits Option.bind_splits)

subsection \<open>The legal-action enumerator returns on a three-slot board\<close>

lemma those_map_total:
  "(\<And>x. x \<in> set xs \<Longrightarrow> \<exists>y. f x = Some y) \<Longrightarrow> \<exists>ys. those (map f xs) = Some ys"
proof (induction xs)
  case Nil
  then show ?case by simp
next
  case (Cons x xs)
  then obtain y ys where "f x = Some y" "those (map f xs) = Some ys"
    by (metis list.set_intros(1) list.set_intros(2))
  then show ?case by simp
qed

lemma py_get_in_range:
  "0 \<le> i \<Longrightarrow> i < int (length xs) \<Longrightarrow> py_get xs i = Some (xs ! nat i)"
  by (simp add: py_get_def py_norm_def)

lemma py_get_nat: "k < length xs \<Longrightarrow> py_get xs (int k) = Some (xs ! k)"
  by (simp add: py_get_def py_norm_def)

lemma place_move_total:
  "length (constructs p) = 3 \<Longrightarrow> slot < 3 \<Longrightarrow> \<exists>zs. place_move p h cd slot = Some zs"
  by (simp add: place_move_def py_get_nat)

lemma card_moves_total:
  assumes "length (constructs p) = 3"
  shows "\<exists>zs. card_moves p opp h cd = Some zs"
proof (cases cd)
  case (ItemCard t cid nm sh r)
  have "\<exists>ys. those (map (place_move p h cd) [0..<3]) = Some ys"
    by (rule those_map_total) (simp add: place_move_total [OF assms])
  then show ?thesis using ItemCard by (auto simp: card_moves_def)
next
  case (SpellCard sid)
  then show ?thesis by (simp add: card_moves_def)
qed

lemma replace_moves_total:
  assumes "length (monsters p) = 3"
  shows "\<exists>zs. replace_moves p a b = Some zs"
proof -
  have "\<exists>ys. those (map (\<lambda>r. map_option
               (\<lambda>m. if m \<noteq> None then [Summon (int a) (int b) (Some (int r))] else [])
               (py_get (monsters p) (int r))) [0..<3]) = Some ys"
    by (rule those_map_total) (simp add: py_get_nat assms)
  then show ?thesis by (auto simp: replace_moves_def)
qed

lemma summon_moves_total:
  assumes "length (monsters p) = 3"
  shows "\<exists>zs. summon_moves p = Some zs"
proof (cases "summoned p")
  case True
  then show ?thesis by (simp add: summon_moves_def)
next
  case False
  have "\<exists>ys. those (map (\<lambda>(pred_slot, out_slot).
                 if firstEmptySlot (monsters p) \<noteq> - 1 then Some [Summon (int pred_slot) (int out_slot) None]
                 else replace_moves p pred_slot out_slot)
             (List.product [0..<3] [0..<3])) = Some ys"
    by (rule those_map_total) (use replace_moves_total [OF assms] in \<open>auto split: prod.splits\<close>)
  then show ?thesis using False by (auto simp: summon_moves_def Let_def)
qed

lemma all_same_total: "None \<notin> set xs \<Longrightarrow> \<exists>b. all_same k v xs = Some b"
  by (induction k v xs rule: all_same.induct) auto

lemma list3: "length xs = 3 \<Longrightarrow> \<exists>a b c. xs = [a, b, c]"
  by (auto simp: length_Suc_conv numeral_3_eq_3)

lemma py_get_3:
  "py_get [a, b, c] 0 = Some a" "py_get [a, b, c] 1 = Some b" "py_get [a, b, c] 2 = Some c"
  by (simp_all add: py_get_def py_norm_def)

lemma localCanMeta_3:
  assumes m: "monsters p = [Some x0, Some x1, Some x2]"
  shows "localCanMeta p =
     Some ((predId x1 = predId x0 \<and> predId x2 = predId x0 \<and> predId x0 \<noteq> ''META'') \<or>
           (outId x1 = outId x0 \<and> outId x2 = outId x0 \<and> outId x0 \<noteq> ''META''))"
proof -
  have sp: "all_same predId (predId x0) [Some x0, Some x1, Some x2] =
      Some (predId x1 = predId x0 \<and> predId x2 = predId x0 \<and> predId x0 \<noteq> ''META'')"
    by auto
  have so: "all_same outId (outId x0) [Some x0, Some x1, Some x2] =
      Some (outId x1 = outId x0 \<and> outId x2 = outId x0 \<and> outId x0 \<noteq> ''META'')"
    by auto
  show ?thesis
    by (simp add: localCanMeta_def m py_get_3 sp so del: all_same.simps)
qed

lemma localCanMeta_total:
  assumes "length (monsters p) = 3"
  shows "\<exists>b. localCanMeta p = Some b"
proof -
  obtain a b c where m: "monsters p = [a, b, c]" using list3 [OF assms] by blast
  show ?thesis
  proof (cases a)
    case None
    then show ?thesis by (auto simp: localCanMeta_def m py_get_3)
  next
    case a: (Some x0)
    show ?thesis
    proof (cases b)
      case None
      then show ?thesis by (auto simp: localCanMeta_def m a py_get_3)
    next
      case b: (Some x1)
      show ?thesis
      proof (cases c)
        case None
        then show ?thesis by (auto simp: localCanMeta_def m a b py_get_3)
      next
        case c: (Some x2)
        have "monsters p = [Some x0, Some x1, Some x2]" using m a b c by simp
        then show ?thesis by (simp add: localCanMeta_3)
      qed
    qed
  qed
qed

lemma legal_actions_total:
  assumes "get_player s (currentPlayer s) = Some me"
    "length (constructs me) = 3" "length (monsters me) = 3"
  shows "\<exists>acts. legal_actions s = Some acts"
proof -
  obtain opp where opp: "get_player s (oppid (currentPlayer s)) = Some opp"
    using get_player_oppid [OF assms(1)] by blast
  have "\<exists>ys. those (map (\<lambda>(h, cd). card_moves me opp h cd) (enumerate 0 (hand me))) = Some ys"
    by (rule those_map_total) (use card_moves_total [OF assms(2)] in \<open>auto split: prod.splits\<close>)
  moreover obtain zs where "summon_moves me = Some zs" using summon_moves_total [OF assms(3)] by blast
  moreover obtain b where "localCanMeta me = Some b" using localCanMeta_total [OF assms(3)] by blast
  ultimately show ?thesis
    using assms(1) opp by (auto simp: legal_actions_def)
qed

lemma end_turn_legal:
  assumes "status s \<noteq> ''finished''" "get_player s (currentPlayer s) = Some me"
    "pendingDiscard me \<le> 0" "legal_actions s = Some acts"
  shows "EndTurn \<in> set acts"
  using assms get_player_oppid[OF assms(2)]
  by (auto simp: legal_actions_def split: if_splits Option.bind_splits)

lemma next_state_end_turn:
  assumes "status s \<noteq> ''finished''" "get_player s (currentPlayer s) = Some me"
    "get_player s (oppid (currentPlayer s)) = Some opp"
  shows "next_state s EndTurn =
     Some (mark_game_over (put_players (s\<lparr>currentPlayer := oppid (currentPlayer s)\<rparr>) (currentPlayer s)
             (fst (apply_end_turn me opp)) (snd (apply_end_turn me opp))))"
  using assms by (simp add: next_state_def Let_def split: prod.splits)


subsection \<open>Terminal finality\<close>

text \<open>
  Claim C7. If \<open>is_terminal(S)\<close> holds (the status is \<open>finished\<close>), then for every action
  \<open>A\<close> the transition returns the state unchanged: \<open>next_state(S, A) = S\<close>.
\<close>

theorem terminal_finality: "is_terminal s \<Longrightarrow> next_state s a = Some s"
  by (simp add: is_terminal_def next_state_def)

theorem terminal_finality_witness:
  "is_terminal (initial_state\<lparr>status := ''finished'', winner := Some 1\<rparr>) \<and>
   next_state (initial_state\<lparr>status := ''finished'', winner := Some 1\<rparr>) EndTurn =
     Some (initial_state\<lparr>status := ''finished'', winner := Some 1\<rparr>)"
  using terminal_finality [of "initial_state\<lparr>status := ''finished'', winner := Some 1\<rparr>" EndTurn]
  by (simp add: is_terminal_def)

subsection \<open>The initial state and the end of a turn\<close>

lemma drawCards_fields_conj:
  "lp (drawCards p k b) = lp p \<and> constructs (drawCards p k b) = constructs p \<and>
   monsters (drawCards p k b) = monsters p \<and> summoned (drawCards p k b) = summoned p \<and>
   experienceTokens (drawCards p k b) = experienceTokens p \<and>
   pendingDiscard (drawCards p k b) = pendingDiscard p"
  by (induction p k b rule: drawCards.induct) auto

lemma drawCards_fields:
  "lp (drawCards p k b) = lp p" "constructs (drawCards p k b) = constructs p"
  "monsters (drawCards p k b) = monsters p" "summoned (drawCards p k b) = summoned p"
  "experienceTokens (drawCards p k b) = experienceTokens p"
  "pendingDiscard (drawCards p k b) = pendingDiscard p"
  using drawCards_fields_conj [of p k b] by simp_all

lemma initial_hand_deck:
  "length (hand (drawCards new_player STARTING_HAND_SIZE False)) = 12"
  "length (deck (drawCards new_player STARTING_HAND_SIZE False)) = 44"
  by code_simp+

lemma initial_player_fields:
  "lp (player1 initial_state) = 8000" "lp (player2 initial_state) = 8000"
  "constructs (player1 initial_state) = [None, None, None]"
  "constructs (player2 initial_state) = [None, None, None]"
  "monsters (player1 initial_state) = [None, None, None]"
  "monsters (player2 initial_state) = [None, None, None]"
  "summoned (player1 initial_state) = False" "summoned (player2 initial_state) = False"
  "experienceTokens (player1 initial_state) = 0" "experienceTokens (player2 initial_state) = 0"
  "pendingDiscard (player1 initial_state) = 0" "pendingDiscard (player2 initial_state) = 0"
  "length (hand (player1 initial_state)) = 12" "length (hand (player2 initial_state)) = 12"
  "length (deck (player1 initial_state)) = 44" "length (deck (player2 initial_state)) = 44"
  by (simp_all add: initial_state_def drawCards_fields initial_hand_deck) (simp_all add: new_player_def)

lemma initial_state_fields:
  "status initial_state = ''active''" "currentPlayer initial_state = 1"
  "get_player initial_state 1 = Some (player1 initial_state)"
  "get_player initial_state 2 = Some (player2 initial_state)"
  by (simp_all add: initial_state_def get_player_def)

lemma legal_actions_discard:
  assumes "status s \<noteq> ''finished''" "get_player s (currentPlayer s) = Some me" "0 < pendingDiscard me"
  shows "legal_actions s = Some (map (\<lambda>i. DiscardCard (int i)) [0..<length (hand me)])"
  using assms by (simp add: legal_actions_def)

lemma apply_end_turn_me:
  "lp (fst (apply_end_turn me opp)) = lp me" "hand (fst (apply_end_turn me opp)) = hand me"
  "deck (fst (apply_end_turn me opp)) = deck me" "constructs (fst (apply_end_turn me opp)) = constructs me"
  "pendingDiscard (fst (apply_end_turn me opp)) = pendingDiscard me"
  "experienceTokens (fst (apply_end_turn me opp)) = experienceTokens me"
  "length (monsters (fst (apply_end_turn me opp))) = length (monsters me)"
  by (simp_all add: apply_end_turn_def Let_def)

lemma apply_end_turn_next:
  "lp (snd (apply_end_turn me opp)) = lp opp"
  "hand (snd (apply_end_turn me opp)) = hand opp @ take 1 (rev (deck opp))"
  "deck (snd (apply_end_turn me opp)) = take (length (deck opp) - 1) (deck opp)"
  "constructs (snd (apply_end_turn me opp)) = constructs opp"
  "pendingDiscard (snd (apply_end_turn me opp)) =
     max 0 (int (length (hand opp @ take 1 (rev (deck opp)))) - MAX_HAND_SIZE)"
  "experienceTokens (snd (apply_end_turn me opp)) = experienceTokens opp"
  "length (monsters (snd (apply_end_turn me opp))) = length (monsters opp)"
  by (simp_all add: apply_end_turn_def Let_def drawCards_overflow enforceHandLimit_def)

lemma status_mark_game_over:
  "0 < lp (player1 s) \<Longrightarrow> 0 < lp (player2 s) \<Longrightarrow> mark_game_over s = s"
  by (simp add: mark_game_over_def)

subsection \<open>Ending the turn\<close>

text \<open>
  Claim C3, as amended. The claim says that \<open>end_turn\<close> is a member of
  \<open>legal_actions(S)\<close> for every state. The enumerator returns the empty list for a finished
  game and only \<open>discard_card\<close> actions while the current player has a discard pending.
  What holds: for every active state whose current player has no discard pending (on a board
  of three construct slots and three monster slots) \<open>legal_actions\<close> returns a list that
  contains \<open>end_turn\<close>; and for every active state \<open>next_state\<close> on \<open>end_turn\<close>
  returns a state whose \<open>currentPlayer\<close> is the other one of 1 and 2.
\<close>

theorem end_turn_legal_and_toggles:
  assumes "status s \<noteq> ''finished''" and "get_player s (currentPlayer s) = Some me"
  shows "(pendingDiscard me \<le> 0 \<and> length (constructs me) = 3 \<and> length (monsters me) = 3 \<longrightarrow>
            (\<exists>acts. legal_actions s = Some acts \<and> EndTurn \<in> set acts)) \<and>
         (\<exists>s'. next_state s EndTurn = Some s' \<and>
            (currentPlayer s = 1 \<longrightarrow> currentPlayer s' = 2) \<and>
            (currentPlayer s = 2 \<longrightarrow> currentPlayer s' = 1) \<and>
            currentPlayer s' \<noteq> currentPlayer s)"
proof -
  obtain opp where opp: "get_player s (oppid (currentPlayer s)) = Some opp"
    using get_player_oppid [OF assms(2)] by blast
  have pid: "currentPlayer s = 1 \<or> currentPlayer s = 2"
    using get_player_valid [OF assms(2)] .
  have toggles: "\<exists>s'. next_state s EndTurn = Some s' \<and>
            (currentPlayer s = 1 \<longrightarrow> currentPlayer s' = 2) \<and>
            (currentPlayer s = 2 \<longrightarrow> currentPlayer s' = 1) \<and>
            currentPlayer s' \<noteq> currentPlayer s"
    using pid by (auto simp: next_state_end_turn [OF assms opp] oppid_def)
  have legal: "\<exists>acts. legal_actions s = Some acts \<and> EndTurn \<in> set acts"
    if "pendingDiscard me \<le> 0" "length (constructs me) = 3" "length (monsters me) = 3"
    using legal_actions_total [OF assms(2) that(2,3)] end_turn_legal [OF assms that(1)] by blast
  show ?thesis using toggles legal by blast
qed

theorem end_turn_legal_and_toggles_witness:
  "status initial_state \<noteq> ''finished'' \<and>
   get_player initial_state (currentPlayer initial_state) = Some (player1 initial_state) \<and>
   pendingDiscard (player1 initial_state) \<le> 0 \<and>
   length (constructs (player1 initial_state)) = 3 \<and>
   length (monsters (player1 initial_state)) = 3 \<and>
   (\<exists>acts. legal_actions initial_state = Some acts \<and> EndTurn \<in> set acts) \<and>
   (\<exists>s'. next_state initial_state EndTurn = Some s' \<and> currentPlayer s' = 2)"
  using end_turn_legal_and_toggles [of initial_state "player1 initial_state"]
  by (auto simp: initial_state_fields initial_player_fields)

text \<open>
  The claim as stated fails one move into the game: after player 1 ends the first turn,
  player 2 holds 13 cards with one discard pending, and the legal actions are the thirteen
  \<open>discard_card\<close> actions; \<open>end_turn\<close> is not among them.
\<close>

theorem end_turn_illegal_while_discard_pending:
  "Option.bind (next_state initial_state EndTurn) legal_actions =
     Some (map DiscardCard [0, 1, 2, 3, 4, 5, 6, 7, 8, 9, 10, 11, 12]) \<and>
   EndTurn \<notin> set (map DiscardCard [0, 1, 2, 3, 4, 5, 6, 7, 8, 9, 10, 11, 12])"
proof -
  define me' where "me' = fst (apply_end_turn (player1 initial_state) (player2 initial_state))"
  define np where "np = snd (apply_end_turn (player1 initial_state) (player2 initial_state))"
  define s1 where "s1 = put_players (initial_state\<lparr>currentPlayer := 2\<rparr>) 1 me' np"
  have lps: "lp me' = 8000" "lp np = 8000"
    by (simp_all add: me'_def np_def apply_end_turn_me apply_end_turn_next initial_player_fields)
  have step: "next_state initial_state EndTurn = Some s1"
    using lps
    by (simp add: next_state_end_turn [of initial_state "player1 initial_state" "player2 initial_state"]
        initial_state_fields oppid_def s1_def me'_def np_def status_mark_game_over put_players_def)
  have s1: "status s1 \<noteq> ''finished''" "get_player s1 (currentPlayer s1) = Some np"
    by (simp_all add: s1_def put_players_def get_player_def initial_state_fields)
  have np: "0 < pendingDiscard np" "length (hand np) = 13"
    by (simp_all add: np_def apply_end_turn_next initial_player_fields MAX_HAND_SIZE_def
        Suc_leI take_Suc_conv_app_nth)
  have "legal_actions s1 = Some (map (\<lambda>i. DiscardCard (int i)) [0..<13])"
    using legal_actions_discard [OF s1 np(1)] np(2) by simp
  also have "map (\<lambda>i. DiscardCard (int i)) [0..<13] = map DiscardCard [0, 1, 2, 3, 4, 5, 6, 7, 8, 9, 10, 11, 12]"
    by (simp add: upt_rec)
  finally show ?thesis using step by auto
qed

subsection \<open>The experience draw\<close>

lemma apply_experience_draw_fields:
  "experienceTokens (apply_experience_draw me) = experienceTokens me - 4"
  "hand (apply_experience_draw me) = hand me @ take 3 (rev (deck me))"
  "deck (apply_experience_draw me) = take (length (deck me) - 3) (deck me)"
  "pendingDiscard (apply_experience_draw me) =
     max 0 (int (length (hand (apply_experience_draw me))) - 12)"
  by (simp_all add: apply_experience_draw_def enforceHandLimit_def drawCards_overflow
      EXPERIENCE_MISS_THRESHOLD_def EXPERIENCE_DRAW_COUNT_def MAX_HAND_SIZE_def)

lemma experience_draw_step:
  assumes "status s \<noteq> ''finished''" and "get_player s (currentPlayer s) = Some me"
  shows "\<exists>s'. next_state s ExperienceDraw = Some s' \<and>
           get_player s' (currentPlayer s) = Some (apply_experience_draw me)"
proof -
  have pid: "currentPlayer s = 1 \<or> currentPlayer s = 2"
    using get_player_valid [OF assms(2)] .
  show ?thesis
    by (simp add: next_state_experience_draw [OF assms] get_player_put(1) [OF pid])
qed

lemma experience_draw_negative_example:
  "\<exists>s0 s1. status s0 \<noteq> ''finished'' \<and> currentPlayer s0 = 1 \<and>
      experienceTokens (player1 s0) < 4 \<and> next_state s0 ExperienceDraw = Some s1 \<and>
      experienceTokens (player1 s1) < 0"
proof -
  obtain s1 where s1: "next_state initial_state ExperienceDraw = Some s1"
      "get_player s1 (currentPlayer initial_state) = Some (apply_experience_draw (player1 initial_state))"
    using experience_draw_step [of initial_state "player1 initial_state"]
    by (auto simp: initial_state_fields)
  have "experienceTokens (player1 s1) < 0"
    using s1(2) by (simp add: initial_state_fields get_player_def apply_experience_draw_fields
        initial_player_fields)
  then show ?thesis
    using s1(1) by (intro exI [of _ initial_state] exI [of _ s1])
      (simp add: initial_state_fields initial_player_fields)
qed

text \<open>
  Claim C10. The \<open>experience_draw\<close> transition is unguarded when it is applied: for every
  active state, \<open>next_state\<close> on \<open>experience_draw\<close> subtracts exactly 4 from the
  current player's \<open>experienceTokens\<close> and moves the last three cards of the deck (all of
  it, if it has fewer) to the hand, whatever the token count and the hand size, then sets
  \<open>pendingDiscard\<close> from the hand size. The guard (at least 4 tokens and a non-empty deck)
  is in \<open>legal_actions\<close> only, and there is a state with fewer than 4 tokens from which
  the transition leaves a negative token count.
\<close>

theorem experience_draw_unguarded:
  assumes "status s \<noteq> ''finished''" and "get_player s (currentPlayer s) = Some me"
  shows "(\<exists>s' me'. next_state s ExperienceDraw = Some s' \<and>
            get_player s' (currentPlayer s) = Some me' \<and>
            experienceTokens me' = experienceTokens me - 4 \<and>
            hand me' = hand me @ take 3 (rev (deck me)) \<and>
            deck me' = take (length (deck me) - 3) (deck me) \<and>
            pendingDiscard me' = max 0 (int (length (hand me')) - 12)) \<and>
         (\<forall>acts. legal_actions s = Some acts \<longrightarrow>
            (ExperienceDraw \<in> set acts) =
            (pendingDiscard me \<le> 0 \<and> 4 \<le> experienceTokens me \<and> deck me \<noteq> [])) \<and>
         (\<exists>s0 s1. status s0 \<noteq> ''finished'' \<and> currentPlayer s0 = 1 \<and>
            experienceTokens (player1 s0) < 4 \<and> next_state s0 ExperienceDraw = Some s1 \<and>
            experienceTokens (player1 s1) < 0)"
proof -
  obtain s' where s': "next_state s ExperienceDraw = Some s'"
      "get_player s' (currentPlayer s) = Some (apply_experience_draw me)"
    using experience_draw_step [OF assms] by blast
  have a: "\<exists>s' me'. next_state s ExperienceDraw = Some s' \<and>
            get_player s' (currentPlayer s) = Some me' \<and>
            experienceTokens me' = experienceTokens me - 4 \<and>
            hand me' = hand me @ take 3 (rev (deck me)) \<and>
            deck me' = take (length (deck me) - 3) (deck me) \<and>
            pendingDiscard me' = max 0 (int (length (hand me')) - 12)"
    using s' apply_experience_draw_fields [of me] by blast
  have b: "\<forall>acts. legal_actions s = Some acts \<longrightarrow>
            (ExperienceDraw \<in> set acts) =
            (pendingDiscard me \<le> 0 \<and> 4 \<le> experienceTokens me \<and> deck me \<noteq> [])"
    using experience_draw_guard [OF assms] by (simp add: EXPERIENCE_MISS_THRESHOLD_def)
  show ?thesis using a b experience_draw_negative_example by blast
qed

theorem experience_draw_unguarded_witness:
  "status initial_state \<noteq> ''finished'' \<and>
   get_player initial_state (currentPlayer initial_state) = Some (player1 initial_state) \<and>
   experienceTokens (player1 initial_state) = 0 \<and>
   (\<exists>s' me'. next_state initial_state ExperienceDraw = Some s' \<and>
      get_player s' (currentPlayer initial_state) = Some me' \<and>
      experienceTokens me' = - 4 \<and> length (hand me') = 15 \<and> pendingDiscard me' = 3) \<and>
   (\<exists>acts. legal_actions initial_state = Some acts \<and> ExperienceDraw \<notin> set acts)"
proof -
  have h: "status initial_state \<noteq> ''finished''"
      "get_player initial_state (currentPlayer initial_state) = Some (player1 initial_state)"
    by (simp_all add: initial_state_fields)
  note t = experience_draw_unguarded [OF h]
  obtain acts where acts: "legal_actions initial_state = Some acts"
    using legal_actions_total [OF h(2)] by (auto simp: initial_player_fields)
  have "ExperienceDraw \<notin> set acts"
    using t acts by (simp add: initial_player_fields)
  moreover have "\<exists>s' me'. next_state initial_state ExperienceDraw = Some s' \<and>
      get_player s' (currentPlayer initial_state) = Some me' \<and>
      experienceTokens me' = - 4 \<and> length (hand me') = 15 \<and> pendingDiscard me' = 3"
    using t by (auto simp: initial_player_fields)
  ultimately show ?thesis using h acts by (simp add: initial_player_fields)
qed

subsection \<open>The spell \<open>missing_data\<close> on a construct stack\<close>

lemma py_norm_Some: "py_norm xs i = Some j \<Longrightarrow> j < length xs"
  by (auto simp: py_norm_def Let_def split: if_splits)

lemma py_get_Some: "py_get xs i = Some x \<Longrightarrow> \<exists>j. py_norm xs i = Some j \<and> j < length xs \<and> x = xs ! j"
  by (auto simp: py_get_def dest: py_norm_Some)

lemma py_pop_of_get:
  "py_get xs i = Some x \<Longrightarrow>
     \<exists>j. py_norm xs i = Some j \<and> j < length xs \<and> py_pop xs i = Some (x, take j xs @ drop (Suc j) xs)"
  by (auto simp: py_get_def py_pop_def dest: py_norm_Some)

lemma py_set_of_get:
  "py_get xs i = Some x \<Longrightarrow>
     \<exists>j. py_norm xs i = Some j \<and> j < length xs \<and> py_set xs i v = Some (xs[j := v])"
  by (auto simp: py_get_def py_set_def dest: py_norm_Some)

lemma py_get_update:
  "py_norm xs i = Some j \<Longrightarrow> py_get (xs[j := v]) i = Some v"
  by (auto simp: py_get_def py_norm_def Let_def split: if_splits)

lemma length_pop: "j < length xs \<Longrightarrow> length (take j xs @ drop (Suc j) xs) + 1 = length xs"
  by simp

lemma next_state_play_spell:
  assumes "status s \<noteq> ''finished''" "get_player s (currentPlayer s) = Some me"
    "get_player s (oppid (currentPlayer s)) = Some opp"
  shows "next_state s (PlaySpell h ow tt ts) =
     map_option (\<lambda>r. mark_game_over (put_players s (currentPlayer s) (fst r) (snd r)))
       (apply_play_spell me opp h ow tt ts)"
  using assms by (cases "apply_play_spell me opp h ow tt ts") (simp_all add: next_state_def Let_def split: prod.splits)

lemma missing_data_on_construct:
  assumes "py_get (hand me) h = Some (SpellCard ''missing_data'')"
    "py_get (constructs (if ow = ''me'' then me else opp)) ts = Some (Some st)"
  shows "\<exists>me' opp'. apply_play_spell me opp h ow ''construct'' ts = Some (me', opp') \<and>
           py_get (constructs (if ow = ''me'' then me' else opp')) ts = Some None \<and>
           length (hand me') + 1 = length (hand me)"
proof -
  obtain j where j: "py_norm (hand me) h = Some j" "j < length (hand me)"
      "py_pop (hand me) h = Some (SpellCard ''missing_data'', take j (hand me) @ drop (Suc j) (hand me))"
    using py_pop_of_get [OF assms(1)] by blast
  define hand' where "hand' = take j (hand me) @ drop (Suc j) (hand me)"
  define arr0 where "arr0 = constructs (if ow = ''me'' then me else opp)"
  obtain k where k: "py_norm arr0 ts = Some k" "k < length arr0"
      "py_set arr0 ts None = Some (arr0[k := None])"
    using py_set_of_get [OF assms(2), of None] by (auto simp: arr0_def)
  have g: "py_get arr0 ts = Some (Some st)" using assms(2) by (simp add: arr0_def)
  have len: "length hand' + 1 = length (hand me)"
    unfolding hand'_def using length_pop [OF j(2)] .
  show ?thesis
  proof (cases "ow = ''me''")
    case True
    have "apply_play_spell me opp h ow ''construct'' ts =
            Some (me\<lparr>hand := hand', constructs := arr0[k := None]\<rparr>, opp)"
      using True j(3) g k(3) by (simp add: apply_play_spell_def hand'_def arr0_def spell_on_construct_def)
    then show ?thesis using True len py_get_update [OF k(1), of None] by simp
  next
    case False
    have "apply_play_spell me opp h ow ''construct'' ts =
            Some (me\<lparr>hand := hand'\<rparr>, opp\<lparr>constructs := arr0[k := None]\<rparr>)"
      using False j(3) g k(3) by (simp add: apply_play_spell_def hand'_def arr0_def spell_on_construct_def)
    then show ?thesis using False len py_get_update [OF k(1), of None] by simp
  qed
qed

lemma py_get_Cons0: "py_get (x # xs) 0 = Some x"
  by (simp add: py_get_def py_norm_def)

lemma bare_state_fields:
  "status (bare_state p1 p2) = ''active''" "currentPlayer (bare_state p1 p2) = 1"
  "get_player (bare_state p1 p2) 1 = Some p1" "get_player (bare_state p1 p2) 2 = Some p2"
  "player1 (bare_state p1 p2) = p1" "player2 (bare_state p1 p2) = p2"
  by (simp_all add: bare_state_def get_player_def)

lemma two_card_stack_player_fields:
  "hand two_card_stack_player = [SpellCard ''missing_data'']"
  "constructs two_card_stack_player =
     [Some \<lparr>stack_type = ''predictor'', stack_constructId = ''cog_ability'',
            cards = [cog_card, cog_card]\<rparr>, None, None]"
  "lp two_card_stack_player = 8000" "lp bare_player = 8000"
  by (simp_all add: two_card_stack_player_def bare_player_def)

text \<open>
  Claim C4, as amended. The claim says that \<open>missing_data\<close> played at a non-empty construct
  stack removes one card and destroys the stack only when it held one card. The code writes
  \<open>arr[target_slot] = None\<close> for every construct target of \<open>missing_data\<close>. What holds:
  in an active state, playing the \<open>missing_data\<close> card at hand index \<open>h\<close> on a
  construct slot (of either owner) that holds a stack leaves that slot empty, whatever the
  number of cards in the stack, and takes the spell card out of the hand.
\<close>

theorem missing_data_destroys_stack:
  assumes "status s \<noteq> ''finished''"
    and "get_player s (currentPlayer s) = Some me"
    and "get_player s (oppid (currentPlayer s)) = Some opp"
    and "py_get (hand me) h = Some (SpellCard ''missing_data'')"
    and "py_get (constructs (if owner = ''me'' then me else opp)) ts = Some (Some st)"
  shows "\<exists>s' me' opp'. next_state s (PlaySpell h owner ''construct'' ts) = Some s' \<and>
           get_player s' (currentPlayer s) = Some me' \<and>
           get_player s' (oppid (currentPlayer s)) = Some opp' \<and>
           py_get (constructs (if owner = ''me'' then me' else opp')) ts = Some None \<and>
           length (hand me') + 1 = length (hand me)"
proof -
  obtain me' opp' where r: "apply_play_spell me opp h owner ''construct'' ts = Some (me', opp')"
      "py_get (constructs (if owner = ''me'' then me' else opp')) ts = Some None"
      "length (hand me') + 1 = length (hand me)"
    using missing_data_on_construct [OF assms(4,5)] by blast
  have pid: "currentPlayer s = 1 \<or> currentPlayer s = 2"
    using get_player_valid [OF assms(2)] .
  show ?thesis
    using r by (simp add: next_state_play_spell [OF assms(1-3)] get_player_put [OF pid])
qed

theorem missing_data_destroys_stack_witness:
  "status two_card_stack_state \<noteq> ''finished'' \<and>
   (\<exists>s' me'. next_state two_card_stack_state (PlaySpell 0 ''me'' ''construct'' 0) = Some s' \<and>
      get_player s' 1 = Some me' \<and> py_get (constructs me') 0 = Some None \<and> hand me' = [])"
  using missing_data_destroys_stack [of two_card_stack_state two_card_stack_player
      bare_player 0 "''me''" 0
      "\<lparr>stack_type = ''predictor'', stack_constructId = ''cog_ability'', cards = [cog_card, cog_card]\<rparr>"]
  by (auto simp: two_card_stack_state_def bare_state_fields two_card_stack_player_fields oppid_def py_get_Cons0)

text \<open>
  The claim as stated fails on a stack of two cards: the slot is empty after the spell,
  where the claim leaves a stack of one card.
\<close>

theorem missing_data_destroys_two_card_stack:
  "is_legal two_card_stack_state (PlaySpell 0 ''me'' ''construct'' 0) \<and>
   map_option (\<lambda>s. constructs (player1 s))
     (next_state two_card_stack_state (PlaySpell 0 ''me'' ''construct'' 0)) = Some [None, None, None]"
proof -
  have "is_legal two_card_stack_state (PlaySpell 0 ''me'' ''construct'' 0)"
    by code_simp
  moreover have "map_option (\<lambda>s. constructs (player1 s))
     (next_state two_card_stack_state (PlaySpell 0 ''me'' ''construct'' 0)) = Some [None, None, None]"
    by (simp add: next_state_play_spell [of "bare_state two_card_stack_player bare_player" two_card_stack_player bare_player]
        two_card_stack_state_def bare_state_fields two_card_stack_player_fields
        oppid_def apply_play_spell_def py_pop_def py_get_def py_set_def py_norm_def
        spell_on_construct_def put_players_def)
  ultimately show ?thesis by simp
qed

subsection \<open>Range restriction halves the attack\<close>














subsection \<open>One transition, branch by branch\<close>

lemma next_state_active:
  assumes "status s \<noteq> ''finished''" "get_player s (currentPlayer s) = Some me"
    "get_player s (oppid (currentPlayer s)) = Some opp"
  shows "next_state s a =
     (case a of
        PlaceCard hand_index slot \<Rightarrow>
          map_option (\<lambda>r. case r of Inl u \<Rightarrow> s
                         | Inr me' \<Rightarrow> mark_game_over (put_players s (currentPlayer s) me' opp))
            (apply_place_card me hand_index slot)
      | DiscardCard hand_index \<Rightarrow>
          Some (mark_game_over (put_players s (currentPlayer s) (apply_discard_card me hand_index) opp))
      | ExperienceDraw \<Rightarrow>
          Some (mark_game_over (put_players s (currentPlayer s) (apply_experience_draw me) opp))
      | Summon pred_slot out_slot replace_monster_slot \<Rightarrow>
          map_option (\<lambda>me'. mark_game_over (put_players s (currentPlayer s) me' opp))
            (apply_summon me pred_slot out_slot replace_monster_slot)
      | PlaySpell hand_index target_owner target_type target_slot \<Rightarrow>
          map_option (\<lambda>r. mark_game_over (put_players s (currentPlayer s) (fst r) (snd r)))
            (apply_play_spell me opp hand_index target_owner target_type target_slot)
      | Attack attacker_slot target_type target_slot \<Rightarrow>
          map_option (\<lambda>r. mark_game_over (put_players s (currentPlayer s) (fst r) (snd r)))
            (apply_attack me opp attacker_slot target_type target_slot)
      | Meta \<Rightarrow>
          map_option (\<lambda>me'. mark_game_over (put_players s (currentPlayer s) me' opp)) (apply_meta me)
      | EndTurn \<Rightarrow>
          Some (mark_game_over (put_players (s\<lparr>currentPlayer := oppid (currentPlayer s)\<rparr>) (currentPlayer s)
                  (fst (apply_end_turn me opp)) (snd (apply_end_turn me opp)))))"
  using assms
  by (cases a)
    (simp_all add: next_state_def Let_def map_option_case split: prod.splits option.splits)

lemma hand_place_card:
  "apply_place_card me h sl = Some (Inr me') \<Longrightarrow> length (hand me') + 1 = length (hand me)"
  by (auto simp: apply_place_card_def py_pop_def dest!: py_norm_Some
      split: Option.bind_splits if_splits)

lemma hand_discard_card: "length (hand (apply_discard_card me h)) \<le> length (hand me)"
  by (auto simp: apply_discard_card_def)

lemma hand_discard_card_in_range:
  "i < length (hand me) \<Longrightarrow> length (hand (apply_discard_card me (int i))) + 1 = length (hand me)"
  by (auto simp: apply_discard_card_def)

lemma hand_summon: "apply_summon me ps os r = Some me' \<Longrightarrow> hand me' = hand me"
  by (auto simp: apply_summon_def Let_def split: Option.bind_splits if_splits option.splits)

lemma hand_play_spell:
  "apply_play_spell me opp h ow tt ts = Some (me', opp') \<Longrightarrow> length (hand me') + 1 = length (hand me)"
  by (auto simp: apply_play_spell_def Let_def py_pop_def dest!: py_norm_Some
      split: Option.bind_splits if_splits)

lemma hand_attack: "apply_attack me opp a tt ts = Some (me', opp') \<Longrightarrow> hand me' = hand me"
  by (auto simp: apply_attack_def Let_def split: Option.bind_splits if_splits option.splits)

lemma hand_meta: "apply_meta me = Some me' \<Longrightarrow> hand me' = hand me"
  by (auto simp: apply_meta_def split: Option.bind_splits if_splits)

subsection \<open>The hand cap\<close>

lemma hand_after_action:
  assumes "status s \<noteq> ''finished''" "get_player s (currentPlayer s) = Some me"
    "next_state s a = Some s'" "a \<noteq> ExperienceDraw"
  shows "\<exists>me'. get_player s' (currentPlayer s) = Some me' \<and> length (hand me') \<le> length (hand me)"
proof -
  obtain opp where opp: "get_player s (oppid (currentPlayer s)) = Some opp"
    using get_player_oppid [OF assms(2)] by blast
  have pid: "currentPlayer s = 1 \<or> currentPlayer s = 2"
    using get_player_valid [OF assms(2)] .
  note ns = assms(3) [unfolded next_state_active [OF assms(1,2) opp, of a]]
  note gp = get_player_put(1) [OF pid] get_player_put_cp(1) [OF pid]
  show ?thesis
  proof (cases a)
    case EndTurn
    then show ?thesis using ns by (auto simp: gp apply_end_turn_me)
  next
    case Meta
    then show ?thesis using ns by (auto simp: gp dest: hand_meta)
  next
    case ExperienceDraw
    then show ?thesis using assms(4) by simp
  next
    case (DiscardCard h)
    then show ?thesis using ns by (auto simp: gp hand_discard_card)
  next
    case (PlaceCard h sl)
    then obtain r where r: "apply_place_card me h sl = Some r" using ns by auto
    show ?thesis
    proof (cases r)
      case (Inl u)
      then show ?thesis using assms(2) ns r PlaceCard by auto
    next
      case (Inr me')
      then show ?thesis using ns r PlaceCard hand_place_card [of me h sl me']
        by (auto simp: gp)
    qed
  next
    case (PlaySpell h ow tt ts)
    then obtain me' opp' where "apply_play_spell me opp h ow tt ts = Some (me', opp')"
      using ns by auto
    then show ?thesis using ns PlaySpell hand_play_spell [of me opp h ow tt ts me' opp']
      by (auto simp: gp)
  next
    case (Summon ps os r)
    then show ?thesis using ns by (auto simp: gp dest: hand_summon)
  next
    case (Attack asl tt ts)
    then obtain me' opp' where "apply_attack me opp asl tt ts = Some (me', opp')"
      using ns by auto
    then show ?thesis using ns Attack hand_attack [of me opp asl tt ts me' opp']
      by (auto simp: gp)
  qed
qed

lemma legal_not_finished:
  "legal_actions s = Some acts \<Longrightarrow> a \<in> set acts \<Longrightarrow> status s \<noteq> ''finished''"
  by (auto simp: legal_actions_def split: if_splits)

lemma token_player_fields:
  "length (hand token_player) = 12" "length (deck token_player) = 3" "lp token_player = 8000"
  "lp bare_player = 8000"
  by (simp_all add: token_player_def bare_player_def)

lemma is_legal_discard:
  assumes "status s \<noteq> ''finished''" "get_player s (currentPlayer s) = Some me"
    "0 < pendingDiscard me" "i < length (hand me)"
  shows "is_legal s (DiscardCard (int i))"
  using assms(4) by (simp add: is_legal_def legal_actions_discard [OF assms(1-3)])

lemma thirteen_player_fields:
  "length (hand thirteen_player) = 13" "pendingDiscard thirteen_player = 1" "lp thirteen_player = 8000"
  by (simp_all add: thirteen_player_def bare_player_def)

text \<open>
  Claim C2, as amended. The claim bounds the acting player's hand by 12 after every legal
  action other than \<open>experience_draw\<close>, from every state. No action but the two draws
  changes a hand by more than the one card it takes out, so the bound holds exactly when the
  hand was small enough before. What holds: for every state whose current player holds at most
  12 cards, or 13 cards with a discard pending, every legal action \<open>A\<close> other than
  \<open>experience_draw\<close> and every state \<open>next_state(S, A)\<close> returns, the hand of the player
  who acted has at most 12 cards; and after a legal \<open>experience_draw\<close>, \<open>pendingDiscard\<close>
  is \<open>max(0, |hand| - 12)\<close>.
\<close>

theorem hand_cap:
  assumes "legal_actions s = Some acts" and "a \<in> set acts"
    and "get_player s (currentPlayer s) = Some me"
    and "next_state s a = Some s'"
    and "int (length (hand me)) \<le> 12 \<or> (int (length (hand me)) = 13 \<and> 0 < pendingDiscard me)"
  shows "\<exists>me'. get_player s' (currentPlayer s) = Some me' \<and>
           (a \<noteq> ExperienceDraw \<longrightarrow> int (length (hand me')) \<le> 12) \<and>
           (a = ExperienceDraw \<longrightarrow> pendingDiscard me' = max 0 (int (length (hand me')) - 12))"
proof -
  have active: "status s \<noteq> ''finished''" using legal_not_finished [OF assms(1,2)] .
  obtain opp where opp: "get_player s (oppid (currentPlayer s)) = Some opp"
    using get_player_oppid [OF assms(3)] by blast
  have pid: "currentPlayer s = 1 \<or> currentPlayer s = 2"
    using get_player_valid [OF assms(3)] .
  show ?thesis
  proof (cases "a = ExperienceDraw")
    case True
    obtain s'' where "next_state s ExperienceDraw = Some s''"
        "get_player s'' (currentPlayer s) = Some (apply_experience_draw me)"
      using experience_draw_step [OF active assms(3)] by blast
    then show ?thesis using True assms(4) apply_experience_draw_fields(4) [of me] by auto
  next
    case False
    obtain me' where me': "get_player s' (currentPlayer s) = Some me'" "length (hand me') \<le> length (hand me)"
      using hand_after_action [OF active assms(3,4) False] by blast
    show ?thesis
    proof (cases "0 < pendingDiscard me")
      case True
      then obtain i where i: "a = DiscardCard (int i)" "i < length (hand me)"
        using assms(1,2) legal_actions_discard [OF active assms(3) True] by auto
      have "get_player s' (currentPlayer s) = Some (apply_discard_card me (int i))"
        using assms(4) [unfolded next_state_active [OF active assms(3) opp, of a]] i(1)
        by (auto simp: get_player_put(1) [OF pid])
      then show ?thesis
        using False assms(5) hand_discard_card_in_range [OF i(2)] by auto
    next
      case no: False
      then show ?thesis using False me' assms(5) by auto
    qed
  qed
qed

theorem hand_cap_witness:
  "(\<exists>acts. legal_actions thirteen_state = Some acts \<and> DiscardCard 0 \<in> set acts) \<and>
   get_player thirteen_state (currentPlayer thirteen_state) = Some thirteen_player \<and>
   length (hand thirteen_player) = 13 \<and> 0 < pendingDiscard thirteen_player \<and>
   (\<exists>s' me'. next_state thirteen_state (DiscardCard 0) = Some s' \<and>
      get_player s' (currentPlayer thirteen_state) = Some me' \<and> int (length (hand me')) \<le> 12)"
proof -
  define s' where "s' = put_players thirteen_state 1 (apply_discard_card thirteen_player 0) bare_player"
  have f: "status thirteen_state \<noteq> ''finished''"
      "get_player thirteen_state (currentPlayer thirteen_state) = Some thirteen_player"
      "get_player thirteen_state (oppid (currentPlayer thirteen_state)) = Some bare_player"
    by (simp_all add: thirteen_state_def bare_state_fields oppid_def)
  have acts: "legal_actions thirteen_state = Some (map (\<lambda>i. DiscardCard (int i)) [0..<13])"
    using legal_actions_discard [OF f(1,2)] by (simp add: thirteen_player_fields)
  have mem: "DiscardCard 0 \<in> set (map (\<lambda>i. DiscardCard (int i)) [0..<13])"
    by (simp add: image_iff)
  have cp: "currentPlayer thirteen_state = 1" "player2 thirteen_state = bare_player"
    by (simp_all add: thirteen_state_def bare_state_fields)
  have step: "next_state thirteen_state (DiscardCard 0) = Some s'"
    by (simp add: next_state_active [OF f] s'_def cp
        status_mark_game_over put_players_def apply_discard_card_def thirteen_player_fields
        token_player_fields)
  have "\<exists>me'. get_player s' (currentPlayer thirteen_state) = Some me' \<and>
           (DiscardCard 0 \<noteq> ExperienceDraw \<longrightarrow> int (length (hand me')) \<le> 12) \<and>
           (DiscardCard 0 = ExperienceDraw \<longrightarrow> pendingDiscard me' = max 0 (int (length (hand me')) - 12))"
    by (rule hand_cap [OF acts mem f(2) step]) (simp add: thirteen_player_fields)
  then show ?thesis using acts mem step f(2) by (auto simp: thirteen_player_fields)
qed

text \<open>
  The claim as stated fails right after an experience draw: from twelve cards the draw leaves
  fifteen in hand and three discards pending, and the first of these discards, a legal action
  other than \<open>experience_draw\<close>, leaves fourteen cards.
\<close>

theorem hand_over_cap_after_experience_draw:
  "map_option (\<lambda>s. length (hand (player1 s))) (play token_state [ExperienceDraw, DiscardCard 0]) = Some 14"
proof -
  define me1 where "me1 = apply_experience_draw token_player"
  define s1 where "s1 = put_players token_state 1 me1 bare_player"
  have me1: "length (hand me1) = 15" "pendingDiscard me1 = 3" "lp me1 = 8000"
    by (simp_all add: me1_def apply_experience_draw_fields token_player_fields)
      (simp add: apply_experience_draw_def enforceHandLimit_def drawCards_fields token_player_fields)
  have legal1: "is_legal token_state ExperienceDraw"
    by code_simp
  have f: "status token_state \<noteq> ''finished''"
      "get_player token_state (currentPlayer token_state) = Some token_player"
      "get_player token_state (oppid (currentPlayer token_state)) = Some bare_player"
      "currentPlayer token_state = 1"
    by (simp_all add: token_state_def bare_state_fields oppid_def)
  have step1: "next_state token_state ExperienceDraw = Some s1"
    using me1(3)
    by (simp add: next_state_active [OF f(1-3)] f(4) s1_def me1_def status_mark_game_over
        put_players_def token_player_fields)
  have s1: "status s1 \<noteq> ''finished''" "currentPlayer s1 = 1" "get_player s1 1 = Some me1"
      "get_player s1 2 = Some bare_player"
    by (simp_all add: s1_def token_state_def put_players_def bare_state_fields get_player_def)
  have legal2: "is_legal s1 (DiscardCard 0)"
    using is_legal_discard [of s1 me1 0] s1 me1 by simp
  have step2: "map_option (\<lambda>s. length (hand (player1 s))) (next_state s1 (DiscardCard 0)) = Some 14"
    using s1 me1
    by (simp add: next_state_active [of s1 me1 bare_player] oppid_def put_players_def
        apply_discard_card_def)
  show ?thesis
    using legal1 step1 legal2 step2 by (cases "next_state s1 (DiscardCard 0)") simp_all
qed

subsection \<open>The recorded winner\<close>

lemma self_play_loop_exit:
  "self_play_loop pick max_moves state move_num trajectory = Some (state', move_num', trajectory') \<Longrightarrow>
     is_terminal state' \<or> max_moves \<le> move_num'"
proof (induction pick max_moves state move_num trajectory rule: self_play_loop.induct)
  case (1 pick max_moves state move_num trajectory)
  show ?case
  proof (cases "\<not> is_terminal state \<and> move_num < max_moves")
    case True
    then obtain action st where a: "pick move_num state = Some action" "next_state state action = Some st"
        "self_play_loop pick max_moves st (move_num + 1) (trajectory @ [currentPlayer state]) =
           Some (state', move_num', trajectory')"
      using "1.prems"(1) by (subst (asm) self_play_loop.simps) (auto split: option.splits)
    show ?thesis
      using "1.IH" [OF True a(1,2,3)] .
  next
    case False
    then show ?thesis
      using "1.prems" by (subst (asm) self_play_loop.simps) auto
  qed
qed

lemma match_loop_exit:
  "match_loop pick_a pick_b max_moves state move_num = Some (state', move_num') \<Longrightarrow>
     is_terminal state' \<or> max_moves \<le> move_num'"
proof (induction pick_a pick_b max_moves state move_num rule: match_loop.induct)
  case (1 pick_a pick_b max_moves state move_num)
  show ?case
  proof (cases "\<not> is_terminal state \<and> move_num < max_moves")
    case True
    then obtain action st where a:
        "(if currentPlayer state = 1 then pick_a else pick_b) move_num state = Some action"
        "next_state state action = Some st"
        "match_loop pick_a pick_b max_moves st (move_num + 1) = Some (state', move_num')"
      using "1.prems"(1) by (subst (asm) match_loop.simps) (auto split: option.splits)
    show ?thesis
      using "1.IH" [OF True a(1,2,3)] .
  next
    case False
    then show ?thesis
      using "1.prems" by (subst (asm) match_loop.simps) auto
  qed
qed

lemma episode_winner_cases:
  "episode_winner state = Some w \<Longrightarrow>
     (is_terminal state \<longrightarrow> winner state = Some w) \<and>
     (\<not> is_terminal state \<longrightarrow>
        (lp (player2 state) \<le> lp (player1 state) \<longrightarrow> w = 1) \<and>
        (lp (player1 state) < lp (player2 state) \<longrightarrow> w = 2))"
  by (auto simp: episode_winner_def split: if_splits)

lemma first_end_turn:
  "\<exists>s1. next_state initial_state EndTurn = Some s1 \<and> status s1 = ''active'' \<and>
     currentPlayer s1 = 2 \<and> lp (player1 s1) = 8000 \<and> lp (player2 s1) = 8000 \<and>
     length (hand (player2 s1)) = 13 \<and> pendingDiscard (player2 s1) = 1"
proof -
  define me' where "me' = fst (apply_end_turn (player1 initial_state) (player2 initial_state))"
  define np where "np = snd (apply_end_turn (player1 initial_state) (player2 initial_state))"
  define s1 where "s1 = put_players (initial_state\<lparr>currentPlayer := 2\<rparr>) 1 me' np"
  have lps: "lp me' = 8000" "lp np = 8000"
    by (simp_all add: me'_def np_def apply_end_turn_me apply_end_turn_next initial_player_fields)
  have np: "pendingDiscard np = 1" "length (hand np) = 13"
    by (simp_all add: np_def apply_end_turn_next initial_player_fields MAX_HAND_SIZE_def
        Suc_leI take_Suc_conv_app_nth)
  have step: "next_state initial_state EndTurn = Some s1"
    using lps
    by (simp add: next_state_end_turn [of initial_state "player1 initial_state" "player2 initial_state"]
        initial_state_fields oppid_def s1_def me'_def np_def status_mark_game_over put_players_def)
  show ?thesis
    using step lps np by (simp add: s1_def put_players_def initial_state_fields)
qed

text \<open>
  Claim C9. In self-play episodes and in evaluation matches alike, the loop stops at a
  terminal state or when the move count has reached \<open>maxGameMoves\<close>. When the final state
  is terminal the recorded winner is the engine's \<open>winner\<close> field; otherwise (the bound was
  reached) it is player 1 if player 1's \<open>lp\<close> is at least player 2's, and player 2
  otherwise, so that a tie goes to player 1.
\<close>

theorem recorded_winner:
  "(self_play_episode pick max_moves = Some (samples, w) \<longrightarrow>
      (\<exists>state move_num trajectory.
         self_play_loop pick max_moves initial_state 0 [] = Some (state, move_num, trajectory) \<and>
         (is_terminal state \<or> max_moves \<le> move_num) \<and>
         (is_terminal state \<longrightarrow> winner state = Some w) \<and>
         (\<not> is_terminal state \<longrightarrow>
            (lp (player2 state) \<le> lp (player1 state) \<longrightarrow> w = 1) \<and>
            (lp (player1 state) < lp (player2 state) \<longrightarrow> w = 2)))) \<and>
   (play_match pick_a pick_b max_moves = Some w' \<longrightarrow>
      (\<exists>state move_num.
         match_loop pick_a pick_b max_moves initial_state 0 = Some (state, move_num) \<and>
         (is_terminal state \<or> max_moves \<le> move_num) \<and>
         (is_terminal state \<longrightarrow> winner state = Some w') \<and>
         (\<not> is_terminal state \<longrightarrow>
            (lp (player2 state) \<le> lp (player1 state) \<longrightarrow> w' = 1) \<and>
            (lp (player1 state) < lp (player2 state) \<longrightarrow> w' = 2))))"
proof (intro conjI impI)
  assume e: "self_play_episode pick max_moves = Some (samples, w)"
  then obtain state move_num trajectory where
      l: "self_play_loop pick max_moves initial_state 0 [] = Some (state, move_num, trajectory)"
      and w: "episode_winner state = Some w"
    by (auto simp: self_play_episode_def split: option.splits)
  show "\<exists>state move_num trajectory.
         self_play_loop pick max_moves initial_state 0 [] = Some (state, move_num, trajectory) \<and>
         (is_terminal state \<or> max_moves \<le> move_num) \<and>
         (is_terminal state \<longrightarrow> winner state = Some w) \<and>
         (\<not> is_terminal state \<longrightarrow>
            (lp (player2 state) \<le> lp (player1 state) \<longrightarrow> w = 1) \<and>
            (lp (player1 state) < lp (player2 state) \<longrightarrow> w = 2))"
    using l self_play_loop_exit [OF l] episode_winner_cases [OF w] by blast
next
  assume "play_match pick_a pick_b max_moves = Some w'"
  then obtain state move_num where
      l: "match_loop pick_a pick_b max_moves initial_state 0 = Some (state, move_num)"
      and w: "episode_winner state = Some w'"
    by (auto simp: play_match_def split: option.splits)
  show "\<exists>state move_num.
         match_loop pick_a pick_b max_moves initial_state 0 = Some (state, move_num) \<and>
         (is_terminal state \<or> max_moves \<le> move_num) \<and>
         (is_terminal state \<longrightarrow> winner state = Some w') \<and>
         (\<not> is_terminal state \<longrightarrow>
            (lp (player2 state) \<le> lp (player1 state) \<longrightarrow> w' = 1) \<and>
            (lp (player1 state) < lp (player2 state) \<longrightarrow> w' = 2))"
    using l match_loop_exit [OF l] episode_winner_cases [OF w] by blast
qed

theorem recorded_winner_witness:
  "self_play_episode (\<lambda>m s. Some EndTurn) 1 = Some ([(1, 1)], 1) \<and>
   play_match (\<lambda>m s. Some EndTurn) (\<lambda>m s. Some EndTurn) 1 = Some 1 \<and>
   (\<exists>state. self_play_loop (\<lambda>m s. Some EndTurn) 1 initial_state 0 [] = Some (state, 1, [1]) \<and>
      match_loop (\<lambda>m s. Some EndTurn) (\<lambda>m s. Some EndTurn) 1 initial_state 0 = Some (state, 1) \<and>
      \<not> is_terminal state \<and> lp (player2 state) \<le> lp (player1 state))"
proof -
  obtain s1 where s1: "next_state initial_state EndTurn = Some s1" "status s1 = ''active''"
      "lp (player1 s1) = 8000" "lp (player2 s1) = 8000"
    using first_end_turn by blast
  have t0: "\<not> is_terminal initial_state" "\<not> is_terminal s1"
    using s1(2) by (simp_all add: is_terminal_def initial_state_fields)
  have l: "self_play_loop (\<lambda>m s. Some EndTurn) 1 initial_state 0 [] = Some (s1, 1, [1])"
    using t0 s1(1)
    by (simp add: self_play_loop.simps [of _ 1 initial_state 0] self_play_loop.simps [of _ 1 s1 1]
        initial_state_fields)
  have m: "match_loop (\<lambda>m s. Some EndTurn) (\<lambda>m s. Some EndTurn) 1 initial_state 0 = Some (s1, 1)"
    using t0 s1(1)
    by (simp add: match_loop.simps [of _ _ 1 initial_state 0] match_loop.simps [of _ _ 1 s1 1])
  have e: "self_play_episode (\<lambda>m s. Some EndTurn) 1 = Some ([(1, 1)], 1)"
    using t0 s1(3,4) by (simp add: self_play_episode_def l episode_winner_def)
  have p: "play_match (\<lambda>m s. Some EndTurn) (\<lambda>m s. Some EndTurn) 1 = Some 1"
    using t0 s1(3,4) by (simp add: play_match_def m episode_winner_def)
  show ?thesis
    using recorded_winner [of "\<lambda>m s. Some EndTurn" 1 "[(1, 1)]" 1 "\<lambda>m s. Some EndTurn" "\<lambda>m s. Some EndTurn" 1]
      e p l m t0 s1(3,4) by auto
qed

subsection \<open>The opening of turns and discards\<close>

lemma length_draw_order: "length draw_order = 56"
  by code_simp

lemma card_25: "draw_order ! 24 = ItemCard ''outcome'' ''ocb'' ''OCB'' ''OCB'' (44 / 100)"
  by code_simp

lemma turn_player_fields:
  "lp (turn_player j d) = 8000" "constructs (turn_player j d) = [None, None, None]"
  "monsters (turn_player j d) = [None, None, None]" "summoned (turn_player j d) = False"
  "experienceTokens (turn_player j d) = 0"
  "deck (turn_player j d) = rev (drop j draw_order)"
  "hand (turn_player j d) = drop d (take j draw_order)"
  "pendingDiscard (turn_player j d) = max 0 (int j - int d - 12)"
  by (simp_all add: turn_player_def bare_player_def MAX_HAND_SIZE_def)

lemma turn_player_draw:
  assumes "j < 56" "d \<le> j"
  shows "snd (apply_end_turn me (turn_player j d)) = turn_player (Suc j) d"
proof -
  have j: "j < length draw_order" using assms(1) by (simp add: length_draw_order)
  have t: "take (Suc 0) (drop j draw_order) = [draw_order ! j]"
    using j by (simp add: take_Suc_conv_app_nth Cons_nth_drop_Suc [symmetric])
  have h: "drop d (take j draw_order) @ take (Suc 0) (drop j draw_order) =
      drop d (take (Suc j) draw_order)"
    using j assms(2) by (simp add: t take_Suc_conv_app_nth)
  have a: "length draw_order - (j + (length draw_order - Suc j)) + j = Suc j" using j by arith
  have dk: "take (length (drop j draw_order) - Suc 0) (rev (drop j draw_order)) =
      rev (drop (Suc j) draw_order)"
    by (simp add: take_rev a)
  have l: "int (length (drop d (take (Suc j) draw_order))) = int (Suc j) - int d"
    using j assms(2) by simp
  show ?thesis
    by (simp add: apply_end_turn_def Let_def drawCards_overflow enforceHandLimit_def
        turn_player_def bare_player_def h dk l del: of_nat_Suc length_drop length_take)
qed

lemma turn_player_own: "fst (apply_end_turn (turn_player j d) opp) = turn_player j d"
  by (simp add: apply_end_turn_def Let_def turn_player_def bare_player_def)

lemma turn_player_discard:
  assumes "d < j" "j \<le> 56"
  shows "apply_discard_card (turn_player j d) 0 = turn_player j (Suc d)"
proof -
  have "0 < length (drop d (take j draw_order))"
    using assms by (simp add: length_draw_order)
  then show ?thesis
    by (simp add: apply_discard_card_def turn_player_def bare_player_def drop_Suc tl_drop
        MAX_HAND_SIZE_def max_def del: length_drop length_take)
qed

lemma is_legal_iff: "is_legal s a = (\<exists>acts. legal_actions s = Some acts \<and> a \<in> set acts)"
  by (cases "legal_actions s") (simp_all add: is_legal_def)

lemma is_legal_end_turn:
  assumes "status s \<noteq> ''finished''" "get_player s (currentPlayer s) = Some me"
    "pendingDiscard me \<le> 0" "length (constructs me) = 3" "length (monsters me) = 3"
  shows "is_legal s EndTurn"
proof -
  obtain acts where acts: "legal_actions s = Some acts"
    using legal_actions_total [OF assms(2,4,5)] by blast
  then show ?thesis using end_turn_legal [OF assms(1-3) acts] by (simp add: is_legal_def)
qed

lemma play_reachable: "reachable s \<Longrightarrow> play s as = Some s' \<Longrightarrow> reachable s'"
proof (induction as arbitrary: s)
  case Nil
  then show ?case by simp
next
  case (Cons a as)
  from Cons.prems(2) obtain s1 where s1: "is_legal s a" "next_state s a = Some s1" "play s1 as = Some s'"
    by (auto split: if_splits Option.bind_splits)
  obtain acts where "legal_actions s = Some acts" "a \<in> set acts"
    using s1(1) by (auto simp: is_legal_iff)
  then have "reachable s1" using reachable_step [OF Cons.prems(1) _ _ s1(2)] by blast
  then show ?case using Cons.IH s1(3) by blast
qed

lemma play_append: "play s (as @ bs) = Option.bind (play s as) (\<lambda>s'. play s' bs)"
  by (induction as arbitrary: s) (auto split: Option.bind_splits)


lemma turn_state_fields:
  "status ((bare_state p1 p2)\<lparr>currentPlayer := 2\<rparr>) = ''active''"
  "currentPlayer ((bare_state p1 p2)\<lparr>currentPlayer := 2\<rparr>) = 2"
  "get_player ((bare_state p1 p2)\<lparr>currentPlayer := 2\<rparr>) 1 = Some p1"
  "get_player ((bare_state p1 p2)\<lparr>currentPlayer := 2\<rparr>) 2 = Some p2"
  "player1 ((bare_state p1 p2)\<lparr>currentPlayer := 2\<rparr>) = p1"
  "player2 ((bare_state p1 p2)\<lparr>currentPlayer := 2\<rparr>) = p2"
  by (simp_all add: bare_state_def get_player_def)

lemma end_turn_of_1:
  assumes "j1 \<le> d1 + 12" "j2 < 56" "d2 \<le> j2"
  shows "is_legal (bare_state (turn_player j1 d1) (turn_player j2 d2)) EndTurn"
    and "next_state (bare_state (turn_player j1 d1) (turn_player j2 d2)) EndTurn =
      Some ((bare_state (turn_player j1 d1) (turn_player (Suc j2) d2))\<lparr>currentPlayer := 2\<rparr>)"
proof -
  let ?s = "bare_state (turn_player j1 d1) (turn_player j2 d2)"
  show "is_legal ?s EndTurn"
    by (rule is_legal_end_turn [of ?s "turn_player j1 d1"])
      (use assms(1) in \<open>simp_all add: bare_state_fields turn_player_fields\<close>)
  show "next_state ?s EndTurn =
      Some ((bare_state (turn_player j1 d1) (turn_player (Suc j2) d2))\<lparr>currentPlayer := 2\<rparr>)"
    by (simp add: next_state_end_turn [of ?s "turn_player j1 d1" "turn_player j2 d2"]
        bare_state_fields oppid_def turn_player_own turn_player_draw [OF assms(2,3)]
        status_mark_game_over put_players_def turn_player_fields)
      (simp add: bare_state_def)
qed

lemma end_turn_of_2:
  assumes "j2 \<le> d2 + 12" "j1 < 56" "d1 \<le> j1"
  shows "is_legal ((bare_state (turn_player j1 d1) (turn_player j2 d2))\<lparr>currentPlayer := 2\<rparr>) EndTurn"
    and "next_state ((bare_state (turn_player j1 d1) (turn_player j2 d2))\<lparr>currentPlayer := 2\<rparr>) EndTurn =
      Some (bare_state (turn_player (Suc j1) d1) (turn_player j2 d2))"
proof -
  let ?s = "(bare_state (turn_player j1 d1) (turn_player j2 d2))\<lparr>currentPlayer := 2\<rparr>"
  show "is_legal ?s EndTurn"
    by (rule is_legal_end_turn [of ?s "turn_player j2 d2"])
      (use assms(1) in \<open>simp_all add: turn_state_fields turn_player_fields\<close>)
  show "next_state ?s EndTurn = Some (bare_state (turn_player (Suc j1) d1) (turn_player j2 d2))"
    by (simp add: next_state_end_turn [of ?s "turn_player j2 d2" "turn_player j1 d1"]
        turn_state_fields oppid_def turn_player_own turn_player_draw [OF assms(2,3)]
        status_mark_game_over put_players_def turn_player_fields)
      (simp add: bare_state_def)
qed

lemma discard_of_1:
  assumes "j1 = d1 + 13" "j1 \<le> 56"
  shows "is_legal (bare_state (turn_player j1 d1) p2) (DiscardCard 0)"
    and "0 < lp p2 \<Longrightarrow> next_state (bare_state (turn_player j1 d1) p2) (DiscardCard 0) =
      Some (bare_state (turn_player j1 (Suc d1)) p2)"
proof -
  let ?s = "bare_state (turn_player j1 d1) p2"
  have "is_legal ?s (DiscardCard (int 0))"
    by (rule is_legal_discard [of ?s "turn_player j1 d1"])
      (use assms in \<open>simp_all add: bare_state_fields turn_player_fields length_draw_order\<close>)
  then show "is_legal ?s (DiscardCard 0)" by simp
  have d: "apply_discard_card (turn_player j1 d1) 0 = turn_player j1 (Suc d1)"
    by (rule turn_player_discard) (use assms in simp_all)
  show "next_state ?s (DiscardCard 0) = Some (bare_state (turn_player j1 (Suc d1)) p2)" if "0 < lp p2"
    using that
    by (simp add: next_state_active [of ?s "turn_player j1 d1" p2]
        bare_state_fields oppid_def d status_mark_game_over put_players_def turn_player_fields)
      (simp add: bare_state_def)
qed

lemma discard_of_2:
  assumes "j2 = d2 + 13" "j2 \<le> 56"
  shows "is_legal ((bare_state p1 (turn_player j2 d2))\<lparr>currentPlayer := 2\<rparr>) (DiscardCard 0)"
    and "0 < lp p1 \<Longrightarrow> next_state ((bare_state p1 (turn_player j2 d2))\<lparr>currentPlayer := 2\<rparr>) (DiscardCard 0) =
      Some ((bare_state p1 (turn_player j2 (Suc d2)))\<lparr>currentPlayer := 2\<rparr>)"
proof -
  let ?s = "(bare_state p1 (turn_player j2 d2))\<lparr>currentPlayer := 2\<rparr>"
  have "is_legal ?s (DiscardCard (int 0))"
    by (rule is_legal_discard [of ?s "turn_player j2 d2"])
      (use assms in \<open>simp_all add: turn_state_fields turn_player_fields length_draw_order\<close>)
  then show "is_legal ?s (DiscardCard 0)" by simp
  have d: "apply_discard_card (turn_player j2 d2) 0 = turn_player j2 (Suc d2)"
    by (rule turn_player_discard) (use assms in simp_all)
  show "next_state ?s (DiscardCard 0) = Some ((bare_state p1 (turn_player j2 (Suc d2)))\<lparr>currentPlayer := 2\<rparr>)"
    if "0 < lp p1"
    using that
    by (simp add: next_state_active [of ?s "turn_player j2 d2" p1]
        turn_state_fields oppid_def d status_mark_game_over put_players_def turn_player_fields)
      (simp add: bare_state_def)
qed

lemma play_turn_round:
  assumes "k < 44"
  shows "play (turn_state k) turn_round = Some (turn_state (Suc k))"
proof -
  have 1: "is_legal (turn_state k) EndTurn"
      "next_state (turn_state k) EndTurn =
         Some ((bare_state (turn_player (12 + k) k) (turn_player (13 + k) k))\<lparr>currentPlayer := 2\<rparr>)"
    using end_turn_of_1 [of "12 + k" k "12 + k" k] assms by (simp_all add: turn_state_def)
  have 2: "is_legal ((bare_state (turn_player (12 + k) k) (turn_player (13 + k) k))\<lparr>currentPlayer := 2\<rparr>) (DiscardCard 0)"
      "next_state ((bare_state (turn_player (12 + k) k) (turn_player (13 + k) k))\<lparr>currentPlayer := 2\<rparr>) (DiscardCard 0) =
         Some ((bare_state (turn_player (12 + k) k) (turn_player (13 + k) (Suc k)))\<lparr>currentPlayer := 2\<rparr>)"
    using discard_of_2 [of "13 + k" k "turn_player (12 + k) k"] assms
    by (simp_all add: turn_player_fields)
  have 3: "is_legal ((bare_state (turn_player (12 + k) k) (turn_player (13 + k) (Suc k)))\<lparr>currentPlayer := 2\<rparr>) EndTurn"
      "next_state ((bare_state (turn_player (12 + k) k) (turn_player (13 + k) (Suc k)))\<lparr>currentPlayer := 2\<rparr>) EndTurn =
         Some (bare_state (turn_player (13 + k) k) (turn_player (13 + k) (Suc k)))"
    using end_turn_of_2 [of "13 + k" "Suc k" "12 + k" k] assms by simp_all
  have 4: "is_legal (bare_state (turn_player (13 + k) k) (turn_player (13 + k) (Suc k))) (DiscardCard 0)"
      "next_state (bare_state (turn_player (13 + k) k) (turn_player (13 + k) (Suc k))) (DiscardCard 0) =
         Some (turn_state (Suc k))"
    using discard_of_1 [of "13 + k" k "turn_player (13 + k) (Suc k)"] assms
    by (simp_all add: turn_player_fields turn_state_def)
  show ?thesis by (simp add: turn_round_def 1 2 3 4)
qed

lemma play_turn_rounds:
  "k + n \<le> 44 \<Longrightarrow> play (turn_state k) (concat (replicate n turn_round)) = Some (turn_state (k + n))"
proof (induction n arbitrary: k)
  case 0
  then show ?case by simp
next
  case (Suc n)
  have "play (turn_state k) turn_round = Some (turn_state (Suc k))"
    using Suc.prems by (intro play_turn_round) simp
  moreover have "play (turn_state (Suc k)) (concat (replicate n turn_round)) = Some (turn_state (Suc k + n))"
    using Suc.prems by (intro Suc.IH) simp
  ultimately show ?case by (simp add: play_append)
qed

lemma drawCards_no_overflow:
  "int (length (hand p)) + int k \<le> MAX_HAND_SIZE \<Longrightarrow> drawCards p k False = drawCards p k True"
proof (induction k arbitrary: p)
  case 0
  then show ?case by simp
next
  case (Suc k)
  show ?case
  proof (cases "deck p = []")
    case True
    then show ?thesis using Suc.prems Suc.IH [of p] by simp
  next
    case False
    then show ?thesis
      using Suc.prems Suc.IH [of "p\<lparr>hand := hand p @ [last (deck p)], deck := butlast (deck p)\<rparr>"]
      by simp
  qed
qed

lemma initial_turn_state: "initial_state = turn_state 0"
proof -
  have d: "drawCards new_player 12 False = turn_player 12 0"
    by (simp add: drawCards_no_overflow drawCards_overflow new_player_def MAX_HAND_SIZE_def
        turn_player_def bare_player_def draw_order_def drop_rev)
  show ?thesis
    by (simp add: initial_state_def turn_state_def STARTING_HAND_SIZE_def d bare_state_def)
qed


lemma turn_13_place:
  "is_legal (turn_state 13) (PlaceCard 11 0)"
  by code_simp


lemma turn_13_next:
  "\<exists>s. next_state (turn_state 13) (PlaceCard 11 0) = Some s \<and>
     constructs (player1 s) =
       [Some \<lparr>stack_type = ''outcome'', stack_constructId = ''ocb'', cards = [ocb_card]\<rparr>, None, None] \<and>
     constructs (player2 s) = [None, None, None]"
proof -
  let ?me = "turn_player 25 13"
  have n: "py_norm (hand ?me) 11 = Some 11"
    by (simp add: py_norm_def turn_player_fields length_draw_order)
  have c: "hand ?me ! 11 = ocb_card"
    by (simp add: turn_player_fields length_draw_order card_25 ocb_card_def)
  have ap: "apply_place_card ?me 11 0 =
      Some (Inr (?me\<lparr>hand := take 11 (hand ?me) @ drop 12 (hand ?me),
                       constructs := [Some \<lparr>stack_type = ''outcome'', stack_constructId = ''ocb'',
                                             cards = [ocb_card]\<rparr>, None, None]\<rparr>))"
    by (simp add: apply_place_card_def py_get_def py_pop_def py_set_def n c)
      (simp add: ocb_card_def turn_player_fields py_norm_def)
  show ?thesis
    by (simp add: next_state_active [of "bare_state ?me ?me" ?me ?me] turn_state_def bare_state_fields
        oppid_def ap put_players_def turn_player_fields)
qed

subsection \<open>Keys of the action space\<close>

lemma key_order:
  "sort_key fst [(''type'', a), (''hand_index'', b)] = [(''hand_index'', b), (''type'', a)]"
  "sort_key fst [(''type'', a), (''hand_index'', b), (''slot'', c)] =
     [(''hand_index'', b), (''slot'', c), (''type'', a)]"
  "sort_key fst [(''type'', a), (''hand_index'', b), (''target_owner'', c), (''target_type'', d), (''target_slot'', e)] =
     [(''hand_index'', b), (''target_owner'', c), (''target_slot'', e), (''target_type'', d), (''type'', a)]"
  "sort_key fst [(''type'', a), (''pred_slot'', b), (''out_slot'', c)] =
     [(''out_slot'', c), (''pred_slot'', b), (''type'', a)]"
  "sort_key fst [(''type'', a), (''pred_slot'', b), (''out_slot'', c), (''replace_monster_slot'', d)] =
     [(''out_slot'', c), (''pred_slot'', b), (''replace_monster_slot'', d), (''type'', a)]"
  "sort_key fst [(''type'', a), (''attacker_slot'', b), (''target_type'', c), (''target_slot'', d)] =
     [(''attacker_slot'', b), (''target_slot'', d), (''target_type'', c), (''type'', a)]"
  by (simp_all add: less_eq_char_def less_char_def)


lemma json_string_names:
  "json_string ''type'' = [CHR 0x22] @ ''type'' @ [CHR 0x22]"
  "json_string ''hand_index'' = [CHR 0x22] @ ''hand_index'' @ [CHR 0x22]"
  "json_string ''slot'' = [CHR 0x22] @ ''slot'' @ [CHR 0x22]"
  "json_string ''target_owner'' = [CHR 0x22] @ ''target_owner'' @ [CHR 0x22]"
  "json_string ''target_type'' = [CHR 0x22] @ ''target_type'' @ [CHR 0x22]"
  "json_string ''target_slot'' = [CHR 0x22] @ ''target_slot'' @ [CHR 0x22]"
  "json_string ''pred_slot'' = [CHR 0x22] @ ''pred_slot'' @ [CHR 0x22]"
  "json_string ''out_slot'' = [CHR 0x22] @ ''out_slot'' @ [CHR 0x22]"
  "json_string ''replace_monster_slot'' = [CHR 0x22] @ ''replace_monster_slot'' @ [CHR 0x22]"
  "json_string ''attacker_slot'' = [CHR 0x22] @ ''attacker_slot'' @ [CHR 0x22]"
  "json_string ''end_turn'' = [CHR 0x22] @ ''end_turn'' @ [CHR 0x22]"
  "json_string ''meta'' = [CHR 0x22] @ ''meta'' @ [CHR 0x22]"
  "json_string ''experience_draw'' = [CHR 0x22] @ ''experience_draw'' @ [CHR 0x22]"
  "json_string ''discard_card'' = [CHR 0x22] @ ''discard_card'' @ [CHR 0x22]"
  "json_string ''place_card'' = [CHR 0x22] @ ''place_card'' @ [CHR 0x22]"
  "json_string ''play_spell'' = [CHR 0x22] @ ''play_spell'' @ [CHR 0x22]"
  "json_string ''summon'' = [CHR 0x22] @ ''summon'' @ [CHR 0x22]"
  "json_string ''attack'' = [CHR 0x22] @ ''attack'' @ [CHR 0x22]"
  "json_string ''me'' = [CHR 0x22] @ ''me'' @ [CHR 0x22]"
  "json_string ''opp'' = [CHR 0x22] @ ''opp'' @ [CHR 0x22]"
  "json_string ''monster'' = [CHR 0x22] @ ''monster'' @ [CHR 0x22]"
  "json_string ''construct'' = [CHR 0x22] @ ''construct'' @ [CHR 0x22]"
  "json_string ''lp'' = [CHR 0x22] @ ''lp'' @ [CHR 0x22]"
  by (simp_all add: json_string_def json_escape_char_def)

lemma show_int_small:
  "show_int 0 = ''0''" "show_int 1 = ''1''" "show_int 2 = ''2''" "show_int 3 = ''3''"
  "show_int 4 = ''4''" "show_int 5 = ''5''" "show_int 6 = ''6''" "show_int 7 = ''7''"
  "show_int 8 = ''8''" "show_int 9 = ''9''" "show_int 10 = ''10''" "show_int 11 = ''11''"
  "show_int 12 = ''12''"
  by (simp_all add: show_int_def digit_char_def)


lemma action_key_forms:
  "action_key EndTurn = ''{'' @ [CHR 0x22] @ ''type'' @ [CHR 0x22] @ '':'' @ [CHR 0x22] @ ''end_turn'' @ [CHR 0x22] @ ''}''"
  "action_key Meta = ''{'' @ [CHR 0x22] @ ''type'' @ [CHR 0x22] @ '':'' @ [CHR 0x22] @ ''meta'' @ [CHR 0x22] @ ''}''"
  "action_key ExperienceDraw = ''{'' @ [CHR 0x22] @ ''type'' @ [CHR 0x22] @ '':'' @ [CHR 0x22] @ ''experience_draw'' @ [CHR 0x22] @ ''}''"
  "action_key (DiscardCard h) =
     ''{'' @ [CHR 0x22] @ ''hand_index'' @ [CHR 0x22] @ '':'' @ show_int h @
     '','' @ [CHR 0x22] @ ''type'' @ [CHR 0x22] @ '':'' @ [CHR 0x22] @ ''discard_card'' @ [CHR 0x22] @ ''}''"
  "action_key (PlaceCard h slot) =
     ''{'' @ [CHR 0x22] @ ''hand_index'' @ [CHR 0x22] @ '':'' @ show_int h @
     '','' @ [CHR 0x22] @ ''slot'' @ [CHR 0x22] @ '':'' @ show_int slot @
     '','' @ [CHR 0x22] @ ''type'' @ [CHR 0x22] @ '':'' @ [CHR 0x22] @ ''place_card'' @ [CHR 0x22] @ ''}''"
  "action_key (PlaySpell h owner ttype ts) =
     ''{'' @ [CHR 0x22] @ ''hand_index'' @ [CHR 0x22] @ '':'' @ show_int h @
     '','' @ [CHR 0x22] @ ''target_owner'' @ [CHR 0x22] @ '':'' @ json_string owner @
     '','' @ [CHR 0x22] @ ''target_slot'' @ [CHR 0x22] @ '':'' @ show_int ts @
     '','' @ [CHR 0x22] @ ''target_type'' @ [CHR 0x22] @ '':'' @ json_string ttype @
     '','' @ [CHR 0x22] @ ''type'' @ [CHR 0x22] @ '':'' @ [CHR 0x22] @ ''play_spell'' @ [CHR 0x22] @ ''}''"
  "action_key (Summon pred_slot out_slot None) =
     ''{'' @ [CHR 0x22] @ ''out_slot'' @ [CHR 0x22] @ '':'' @ show_int out_slot @
     '','' @ [CHR 0x22] @ ''pred_slot'' @ [CHR 0x22] @ '':'' @ show_int pred_slot @
     '','' @ [CHR 0x22] @ ''type'' @ [CHR 0x22] @ '':'' @ [CHR 0x22] @ ''summon'' @ [CHR 0x22] @ ''}''"
  "action_key (Summon pred_slot out_slot (Some r)) =
     ''{'' @ [CHR 0x22] @ ''out_slot'' @ [CHR 0x22] @ '':'' @ show_int out_slot @
     '','' @ [CHR 0x22] @ ''pred_slot'' @ [CHR 0x22] @ '':'' @ show_int pred_slot @
     '','' @ [CHR 0x22] @ ''replace_monster_slot'' @ [CHR 0x22] @ '':'' @ show_int r @
     '','' @ [CHR 0x22] @ ''type'' @ [CHR 0x22] @ '':'' @ [CHR 0x22] @ ''summon'' @ [CHR 0x22] @ ''}''"
  "action_key (Attack a ttype tso) =
     ''{'' @ [CHR 0x22] @ ''attacker_slot'' @ [CHR 0x22] @ '':'' @ show_int a @
     '','' @ [CHR 0x22] @ ''target_slot'' @ [CHR 0x22] @ '':'' @ (case tso of None \<Rightarrow> ''null'' | Some t \<Rightarrow> show_int t) @
     '','' @ [CHR 0x22] @ ''target_type'' @ [CHR 0x22] @ '':'' @ json_string ttype @
     '','' @ [CHR 0x22] @ ''type'' @ [CHR 0x22] @ '':'' @ [CHR 0x22] @ ''attack'' @ [CHR 0x22] @ ''}''"
  by (simp_all add: action_key_def json_dumps_def key_order json_string_names split: option.splits)

text \<open>The key read from its end: the \<open>type\<close> entry is the last one of every key.\<close>

lemma rev_key_discard:
  "rev (action_key (DiscardCard h)) =
     ''}'' @ [CHR 0x22] @ ''drac_dracsid'' @ [CHR 0x22] @ '':'' @ [CHR 0x22] @ ''epyt'' @ [CHR 0x22] @ '','' @
     rev (show_int h) @ '':'' @ [CHR 0x22] @ ''xedni_dnah'' @ [CHR 0x22] @ ''{''"
  by (simp add: action_key_forms)

lemma discard_key_eq:
  assumes "action_key b = action_key (DiscardCard h)"
  shows "\<exists>h'. b = DiscardCard h' \<and> show_int h' = show_int h"
proof -
  have r: "rev (action_key b) = rev (action_key (DiscardCard h))" using assms by simp
  show ?thesis
  proof (cases b)
    case (DiscardCard h')
    then show ?thesis using r by (simp add: rev_key_discard)
  next
    case (Summon p o' rr)
    then show ?thesis using r by (cases rr) (simp_all add: rev_key_discard action_key_forms)
  qed (use r in \<open>simp_all add: rev_key_discard action_key_forms\<close>)
qed

lemma register_dom:
  "dom (action_to_id (register sp a)) = insert (action_key a) (dom (action_to_id sp))"
  by (auto simp: register_def Let_def)

lemma foldl_register_dom:
  "dom (action_to_id (foldl register sp xs)) = dom (action_to_id sp) \<union> action_key ` set xs"
  by (induction xs arbitrary: sp) (auto simp: register_dom)

lemma to_id_Some_iff: "(\<exists>i. to_id a = Some i) = (action_key a \<in> action_key ` set build_order)"
proof -
  have "dom (action_to_id ActionSpace) = action_key ` set build_order"
    by (simp add: ActionSpace_def foldl_register_dom)
  then show ?thesis by (auto simp: to_id_def dom_def)
qed

lemma hand_block_iff:
  "a \<in> set (hand_block h) =
     (a = DiscardCard h \<or> (\<exists>slot\<in>{0, 1, 2}. a = PlaceCard h slot) \<or>
      (\<exists>owner\<in>{''me'', ''opp''}. \<exists>ttype\<in>{''monster'', ''construct''}. \<exists>ts\<in>{0, 1, 2}.
          a = PlaySpell h owner ttype ts))"
  by (auto simp: hand_block_def)

lemma summon_block_iff:
  "a \<in> set summon_block =
     (\<exists>p\<in>{0, 1, 2}. \<exists>o'\<in>{0, 1, 2}. \<exists>r\<in>{None, Some 0, Some 1, Some 2}. a = Summon p o' r)"
  by (auto simp: summon_block_def)

lemma attack_block_iff:
  "a \<in> set attack_block =
     (\<exists>s\<in>{0, 1, 2}. a = Attack s ''lp'' None \<or> (\<exists>t\<in>{0, 1, 2}. a = Attack s ''monster'' (Some t)))"
  by (auto simp: attack_block_def)

lemma hand_range: "(\<exists>x\<in>{0..<12}. P (int x)) = (\<exists>h. 0 \<le> h \<and> h < 12 \<and> P h)"
proof
  assume "\<exists>h. 0 \<le> h \<and> h < 12 \<and> P h"
  then obtain h where h: "0 \<le> h" "h < 12" "P h" by blast
  then have "nat h \<in> {0..<12}" "P (int (nat h))" by auto
  then show "\<exists>x\<in>{0..<12}. P (int x)" by blast
next
  assume "\<exists>x\<in>{0..<12}. P (int x)"
  then obtain x where "x < 12" "P (int x)" by auto
  then have "0 \<le> int x \<and> int x < 12 \<and> P (int x)" by simp
  then show "\<exists>h. 0 \<le> h \<and> h < 12 \<and> P h" by blast
qed

lemma build_order_iff: "a \<in> set build_order = in_schema 12 a"
proof -
  have "a \<in> set build_order =
      (a \<in> {EndTurn, Meta, ExperienceDraw} \<or> (\<exists>x\<in>{0..<12}. a \<in> set (hand_block (int x))) \<or>
       a \<in> set summon_block \<or> a \<in> set attack_block)"
    by (auto simp: build_order_def MAX_HAND_SIZE_def)
  also have "\<dots> =
      (a \<in> {EndTurn, Meta, ExperienceDraw} \<or> (\<exists>h. 0 \<le> h \<and> h < 12 \<and> a \<in> set (hand_block h)) \<or>
       a \<in> set summon_block \<or> a \<in> set attack_block)"
    using hand_range [of "\<lambda>h. a \<in> set (hand_block h)"] by simp
  also have "\<dots> = in_schema 12 a"
    by (cases a) (auto simp: hand_block_iff summon_block_iff attack_block_iff)
  finally show ?thesis .
qed

lemma in_schema_mono: "in_schema H a \<Longrightarrow> H \<le> H' \<Longrightarrow> in_schema H' a"
  by (cases a) auto

lemma schema_registered: "in_schema 12 a \<Longrightarrow> \<exists>i. to_id a = Some i"
  by (simp add: to_id_Some_iff build_order_iff)

lemma show_int_12: "0 \<le> h \<Longrightarrow> h < 12 \<Longrightarrow> show_int h \<noteq> show_int 12"
proof -
  assume "0 \<le> h" "h < 12"
  then have "h = 0 \<or> h = 1 \<or> h = 2 \<or> h = 3 \<or> h = 4 \<or> h = 5 \<or> h = 6 \<or> h = 7 \<or> h = 8 \<or>
      h = 9 \<or> h = 10 \<or> h = 11" by arith
  then show ?thesis by (auto simp: show_int_small)
qed

lemma discard_12_unregistered: "to_id (DiscardCard 12) = None"
proof -
  have "action_key (DiscardCard 12) \<notin> action_key ` set build_order"
  proof
    assume "action_key (DiscardCard 12) \<in> action_key ` set build_order"
    then obtain b where b: "b \<in> set build_order" "action_key b = action_key (DiscardCard 12)"
      by auto
    then obtain h' where h': "b = DiscardCard h'" "show_int h' = show_int 12"
      using discard_key_eq by blast
    have "0 \<le> h' \<and> h' < 12" using b(1) h'(1) by (simp add: build_order_iff)
    then show False using show_int_12 h'(2) by blast
  qed
  then show ?thesis using to_id_Some_iff [of "DiscardCard 12"] by (cases "to_id (DiscardCard 12)") auto
qed

text \<open>A key with a hand index that is registered has a hand index below 12.\<close>

lemma digit_cases: "d < 10 \<Longrightarrow> d = 0 \<or> d = 1 \<or> d = 2 \<or> d = 3 \<or> d = 4 \<or> d = 5 \<or> d = 6 \<or> d = 7 \<or> d = 8 \<or> d = (9::nat)"
  by arith

lemma digit_char_inj: "a < 10 \<Longrightarrow> b < 10 \<Longrightarrow> digit_char a = digit_char b \<Longrightarrow> a = b"
  using digit_cases [of a] digit_cases [of b] by (auto simp: digit_char_def)

lemma digit_char_no_comma: "d < 10 \<Longrightarrow> digit_char d \<noteq> CHR '',''"
  using digit_cases [of d] by (auto simp: digit_char_def)

lemma show_nat_no_comma: "CHR '','' \<notin> set (show_nat k)"
proof (induction k rule: show_nat.induct)
  case (1 k)
  show ?case
  proof (cases "k < 10")
    case True
    then show ?thesis using digit_char_no_comma [of k] by (subst show_nat.simps) simp
  next
    case False
    have "digit_char (k mod 10) \<noteq> CHR '',''" by (rule digit_char_no_comma) simp
    then show ?thesis using 1 False by (subst show_nat.simps) simp
  qed
qed

lemma show_nat_nonempty: "show_nat k \<noteq> []"
  by (subst show_nat.simps) simp

lemma show_nat_inj: "show_nat a = show_nat b \<Longrightarrow> a = b"
proof (induction a arbitrary: b rule: show_nat.induct)
  case (1 a)
  have sa: "show_nat a = (if a < 10 then [digit_char a] else show_nat (a div 10) @ [digit_char (a mod 10)])"
    by (subst show_nat.simps) simp
  have sb: "show_nat b = (if b < 10 then [digit_char b] else show_nat (b div 10) @ [digit_char (b mod 10)])"
    by (subst show_nat.simps) simp
  show ?case
  proof (cases "a < 10")
    case True
    show ?thesis
    proof (cases "b < 10")
      case b: True
      then show ?thesis using True 1(2) sa sb digit_char_inj by simp
    next
      case False
      then show ?thesis using True 1(2) sa sb show_nat_nonempty [of "b div 10"] by simp
    qed
  next
    case False
    show ?thesis
    proof (cases "b < 10")
      case True
      then show ?thesis using False 1(2) sa sb show_nat_nonempty [of "a div 10"] by simp
    next
      case b: False
      have e: "show_nat (a div 10) = show_nat (b div 10)" "digit_char (a mod 10) = digit_char (b mod 10)"
        using False b 1(2) sa sb by simp_all
      have "a div 10 = b div 10" using 1(1) [OF False e(1)] .
      moreover have "a mod 10 = b mod 10" using e(2) by (intro digit_char_inj) simp_all
      ultimately show ?thesis by (metis div_mult_mod_eq)
    qed
  qed
qed

lemma show_int_inj: "0 \<le> a \<Longrightarrow> 0 \<le> b \<Longrightarrow> show_int a = show_int b \<Longrightarrow> a = b"
  using show_nat_inj [of "nat a" "nat b"] by (simp add: show_int_def)

lemma show_int_no_comma: "0 \<le> a \<Longrightarrow> CHR '','' \<notin> set (show_int a)"
  using show_nat_no_comma [of "nat a"] by (simp add: show_int_def)

lemma sep_split: "sep \<notin> set X \<Longrightarrow> sep \<notin> set Y \<Longrightarrow> X @ sep # R = Y @ sep # R' \<Longrightarrow> X = Y"
proof (induction X arbitrary: Y)
  case Nil
  then show ?case by (cases Y) auto
next
  case (Cons x X)
  then show ?case by (cases Y) auto
qed

lemma key_hand_prefix:
  "action_hand_index a = Some h \<Longrightarrow>
   \<exists>R. action_key a = ''{'' @ [CHR 0x22] @ ''hand_index'' @ [CHR 0x22] @ '':'' @ show_int h @ CHR '','' # R"
  by (cases a) (simp_all add: action_key_forms)

lemma key_no_hand_prefix:
  "action_hand_index b = None \<Longrightarrow> take 3 (action_key b) \<noteq> ''{'' @ [CHR 0x22] @ ''h''"
  by (cases b rule: action_dict.cases) (simp_all add: action_key_forms)

lemma key_action_hand_index:
  assumes "action_key b = action_key a" "action_hand_index a = Some h" "0 \<le> h" "in_schema H b"
  shows "h < H"
proof -
  obtain R where R: "action_key a = ''{'' @ [CHR 0x22] @ ''hand_index'' @ [CHR 0x22] @ '':'' @ show_int h @ CHR '','' # R"
    using key_hand_prefix [OF assms(2)] by blast
  have "action_hand_index b \<noteq> None"
    using key_no_hand_prefix [of b] assms(1) R by auto
  then obtain h' where h': "action_hand_index b = Some h'" by auto
  obtain R' where R': "action_key b = ''{'' @ [CHR 0x22] @ ''hand_index'' @ [CHR 0x22] @ '':'' @ show_int h' @ CHR '','' # R'"
    using key_hand_prefix [OF h'] by blast
  have b: "0 \<le> h'" "h' < H" using assms(4) h' by (cases b; simp)+
  have "show_int h' @ CHR '','' # R' = show_int h @ CHR '','' # R"
    using assms(1) R R' by simp
  then have "show_int h' = show_int h"
    using sep_split [of "CHR '',''" "show_int h'" "show_int h" R' R]
      show_int_no_comma [OF b(1)] show_int_no_comma [OF assms(3)] by simp
  then have "h' = h" using show_int_inj [OF b(1) assms(3)] by simp
  then show ?thesis using b(2) by simp
qed

lemma in_schema_hand:
  "in_schema H a \<Longrightarrow> (\<forall>h. action_hand_index a = Some h \<longrightarrow> h < H') \<Longrightarrow> in_schema H' a"
  by (cases a) auto

lemma in_schema_nonneg: "in_schema H a \<Longrightarrow> action_hand_index a = Some h \<Longrightarrow> 0 \<le> h"
  by (cases a) auto

subsection \<open>Legal actions and the action space\<close>

lemma slot_index: "k < 3 \<Longrightarrow> int k = 0 \<or> int k = 1 \<or> int k = 2"
  by arith

lemma target_moves_mem:
  "a \<in> set (target_moves h ow tt arr) \<Longrightarrow> \<exists>ts<length arr. a = PlaySpell (int h) ow tt (int ts)"
  by (auto simp: target_moves_def in_set_enumerate_eq split: if_splits)

lemma place_move_mem:
  "place_move p h cd slot = Some zs \<Longrightarrow> a \<in> set zs \<Longrightarrow> a = PlaceCard (int h) (int slot)"
  by (auto simp: place_move_def split: Option.bind_splits option.splits if_splits)

lemma card_moves_schema:
  assumes "card_moves p opp h cd = Some zs" "a \<in> set zs"
    "length (constructs p) \<le> 3" "length (monsters p) \<le> 3"
    "length (constructs opp) \<le> 3" "length (monsters opp) \<le> 3"
  shows "in_schema (int h + 1) a"
proof (cases cd)
  case (ItemCard t cid nm sh r)
  then obtain ys where ys: "those (map (place_move p h cd) [0..<3]) = Some ys" "a \<in> set (concat ys)"
    using assms(1,2) by (auto simp: card_moves_def)
  obtain slot ws where "slot \<in> set [0..<3]" "place_move p h cd slot = Some ws" "a \<in> set ws"
    using those_concat_mem [OF ys] by blast
  then have "a = PlaceCard (int h) (int slot)" "slot < 3"
    using place_move_mem by auto
  then show ?thesis using slot_index [of slot] by auto
next
  case (SpellCard sid)
  then have "a \<in> set (target_moves h ''me'' ''monster'' (monsters p)) \<or>
      a \<in> set (target_moves h ''opp'' ''monster'' (monsters opp)) \<or>
      a \<in> set (target_moves h ''me'' ''construct'' (constructs p)) \<or>
      a \<in> set (target_moves h ''opp'' ''construct'' (constructs opp))"
    using assms(1,2) by (auto simp: card_moves_def split: if_splits)
  then obtain ow tt ts where "a = PlaySpell (int h) ow tt (int ts)" "ow \<in> {''me'', ''opp''}"
      "tt \<in> {''monster'', ''construct''}" "ts < 3"
    using assms(3-6) by (auto dest!: target_moves_mem)
  then show ?thesis using slot_index [of ts] by auto
qed

lemma replace_moves_schema:
  assumes "replace_moves p ps os = Some zs" "a \<in> set zs" "ps < 3" "os < 3"
  shows "in_schema H a"
proof -
  obtain ys where ys: "those (map (\<lambda>r. map_option
               (\<lambda>m. if m \<noteq> None then [Summon (int ps) (int os) (Some (int r))] else [])
               (py_get (monsters p) (int r))) [0..<3]) = Some ys" "a \<in> set (concat ys)"
    using assms(1,2) by (auto simp: replace_moves_def)
  obtain r ws where "r \<in> set [0..<3]" "map_option
               (\<lambda>m. if m \<noteq> None then [Summon (int ps) (int os) (Some (int r))] else [])
               (py_get (monsters p) (int r)) = Some ws" "a \<in> set ws"
    using those_concat_mem [OF ys] by blast
  then have "a = Summon (int ps) (int os) (Some (int r))" "r < 3"
    by (auto split: if_splits)
  then show ?thesis using slot_index [of r] slot_index [OF assms(3)] slot_index [OF assms(4)] by auto
qed

lemma summon_moves_schema:
  assumes "summon_moves p = Some zs" "a \<in> set zs"
  shows "in_schema H a"
proof (cases "summoned p")
  case True
  then show ?thesis using assms by (simp add: summon_moves_def)
next
  case False
  then obtain ys where ys: "those (map (\<lambda>(pred_slot, out_slot).
                 if firstEmptySlot (monsters p) \<noteq> - 1 then Some [Summon (int pred_slot) (int out_slot) None]
                 else replace_moves p pred_slot out_slot)
             (List.product [0..<3] [0..<3])) = Some ys" "a \<in> set (concat ys)"
    using assms by (auto simp: summon_moves_def Let_def)
  obtain x ws where x: "x \<in> set (List.product [0..<3] [0..<3])"
      "(case x of (pred_slot, out_slot) \<Rightarrow>
                 if firstEmptySlot (monsters p) \<noteq> - 1 then Some [Summon (int pred_slot) (int out_slot) None]
                 else replace_moves p pred_slot out_slot) = Some ws" "a \<in> set ws"
    using those_concat_mem [OF ys] by blast
  obtain ps os where po: "x = (ps, os)" "ps < 3" "os < 3" using x(1) by auto
  show ?thesis
  proof (cases "firstEmptySlot (monsters p) \<noteq> - 1")
    case True
    then have "a = Summon (int ps) (int os) None" using x(2,3) po(1) by auto
    then show ?thesis using slot_index [OF po(2)] slot_index [OF po(3)] by auto
  next
    case False
    then have "replace_moves p ps os = Some ws" using x(2) po(1) by simp
    then show ?thesis using replace_moves_schema x(3) po(2,3) by blast
  qed
qed

lemma attack_moves_schema:
  assumes "a \<in> set (attack_moves p opp)" "length (monsters p) \<le> 3" "length (monsters opp) \<le> 3"
  shows "in_schema H a"
proof -
  obtain i where i: "i < length (monsters p)"
      "a = Attack (int i) ''lp'' None \<or> (\<exists>t<length (monsters opp). a = Attack (int i) ''monster'' (Some (int t)))"
    using assms(1) by (auto simp: attack_moves_def Let_def in_set_enumerate_eq split: if_splits)
  have "i < 3" using i(1) assms(2) by simp
  then show ?thesis using i(2) assms(3) slot_index [of i]
    by (auto dest!: slot_index [OF less_le_trans])
qed

lemma legal_actions_schema:
  assumes "legal_actions s = Some acts" "a \<in> set acts"
    "get_player s (currentPlayer s) = Some me" "get_player s (oppid (currentPlayer s)) = Some opp"
    "length (constructs me) \<le> 3" "length (monsters me) \<le> 3"
    "length (constructs opp) \<le> 3" "length (monsters opp) \<le> 3"
  shows "in_schema (int (length (hand me))) a"
proof -
  have active: "status s \<noteq> ''finished''" using legal_not_finished [OF assms(1,2)] .
  show ?thesis
  proof (cases "0 < pendingDiscard me")
    case True
    then show ?thesis
      using assms(1,2) legal_actions_discard [OF active assms(3) True] by auto
  next
    case False
    then obtain hm sm cm where parts:
        "those (map (\<lambda>(h, cd). card_moves me opp h cd) (enumerate 0 (hand me))) = Some hm"
        "summon_moves me = Some sm" "localCanMeta me = Some cm"
        "acts = concat hm @
           (if EXPERIENCE_MISS_THRESHOLD \<le> experienceTokens me \<and> 0 < length (deck me)
            then [ExperienceDraw] else []) @ sm @ (if cm then [Meta] else []) @
           attack_moves me opp @ [EndTurn]"
      using assms(1,3,4) active
      by (auto simp: legal_actions_def split: Option.bind_splits)
    consider "a \<in> set (concat hm)" | "a = ExperienceDraw" | "a \<in> set sm" | "a = Meta"
      | "a \<in> set (attack_moves me opp)" | "a = EndTurn"
      using assms(2) parts(4) by (auto split: if_splits)
    then show ?thesis
    proof cases
      case 1
      obtain x ws where x: "x \<in> set (enumerate 0 (hand me))"
          "(case x of (h, cd) \<Rightarrow> card_moves me opp h cd) = Some ws" "a \<in> set ws"
        using those_concat_mem [OF parts(1) 1] by blast
      have "fst x < length (hand me)" using x(1) by (simp add: in_set_enumerate_eq)
      then obtain h cd where hc: "x = (h, cd)" "h < length (hand me)"
        by (metis prod.collapse)
      have "in_schema (int h + 1) a"
        using card_moves_schema [of me opp h cd ws a] x(2,3) hc(1) assms(5-8) by simp
      then show ?thesis using hc(2) by (auto intro: in_schema_mono)
    next
      case 3
      then show ?thesis using summon_moves_schema [OF parts(2)] by blast
    next
      case 5
      then show ?thesis using attack_moves_schema assms(6,8) by blast
    qed auto
  qed
qed

text \<open>
  Claim C1, as amended. The claim says that every action of \<open>legal_actions\<close> is registered
  in the static action space, also for a hand of more than \<open>MAX_HAND_SIZE = 12\<close> cards.
  The space is built for the hand indices 0 to 11 only, and \<open>MCTS._legal_ids\<close> skips an
  action that \<open>to_id\<close> does not know. What holds, in every state (on boards of at most
  three construct and three monster slots): an action that \<open>legal_actions\<close> produces has
  a registered key (\<open>to_id\<close> returns an id) if and only if it has no hand index or a hand
  index below 12. So with a hand of more than 12 cards the legal actions on its first twelve
  cards are registered and those on the cards at index 12 and above are not.
\<close>

theorem legal_actions_registered:
  assumes "legal_actions s = Some acts" and "a \<in> set acts"
    and "get_player s (currentPlayer s) = Some me"
    and "get_player s (oppid (currentPlayer s)) = Some opp"
    and "length (constructs me) \<le> 3" and "length (monsters me) \<le> 3"
    and "length (constructs opp) \<le> 3" and "length (monsters opp) \<le> 3"
  shows "(\<exists>i. to_id a = Some i) = (\<forall>h. action_hand_index a = Some h \<longrightarrow> h < MAX_HAND_SIZE)"
proof
  have sch: "in_schema (int (length (hand me))) a"
    using legal_actions_schema [OF assms(1-8)] .
  {
    assume "\<forall>h. action_hand_index a = Some h \<longrightarrow> h < MAX_HAND_SIZE"
    then have "in_schema 12 a"
      using sch by (auto intro: in_schema_hand simp: MAX_HAND_SIZE_def)
    then show "\<exists>i. to_id a = Some i" by (rule schema_registered)
  }
  {
    assume "\<exists>i. to_id a = Some i"
    then obtain b where b: "in_schema 12 b" "action_key b = action_key a"
      by (auto simp: to_id_Some_iff build_order_iff)
    show "\<forall>h. action_hand_index a = Some h \<longrightarrow> h < MAX_HAND_SIZE"
      using key_action_hand_index [OF b(2) _ _ b(1)] in_schema_nonneg [OF sch]
      by (auto simp: MAX_HAND_SIZE_def)
  }
qed

theorem legal_actions_registered_witness:
  "\<exists>s1 acts. next_state initial_state EndTurn = Some s1 \<and> legal_actions s1 = Some acts \<and>
     length (hand (player2 s1)) = 13 \<and> DiscardCard 11 \<in> set acts \<and> DiscardCard 12 \<in> set acts \<and>
     (\<exists>i. to_id (DiscardCard 11) = Some i) \<and> to_id (DiscardCard 12) = None"
proof -
  define s1 where "s1 = (bare_state (turn_player 12 0) (turn_player 13 0))\<lparr>currentPlayer := 2\<rparr>"
  define acts where "acts = map (\<lambda>i. DiscardCard (int i)) [0..<13]"
  have n: "next_state initial_state EndTurn = Some s1"
    using end_turn_of_1(2) [of 12 0 12 0] by (simp add: initial_turn_state turn_state_def s1_def)
  have g: "get_player s1 (currentPlayer s1) = Some (turn_player 13 0)"
      "get_player s1 (oppid (currentPlayer s1)) = Some (turn_player 12 0)"
    by (simp_all add: s1_def turn_state_fields oppid_def)
  have len: "length (hand (turn_player 13 0)) = 13"
    by (simp add: turn_player_fields length_draw_order)
  have la: "legal_actions s1 = Some acts"
    using legal_actions_discard [OF _ g(1)]
    by (simp add: s1_def turn_state_fields turn_player_fields length_draw_order acts_def)
  have m: "DiscardCard 11 \<in> set acts" "DiscardCard 12 \<in> set acts"
    unfolding acts_def by (auto simp: image_iff intro: bexI [of _ 11] bexI [of _ 12])
  have b: "length (constructs (turn_player 13 0)) \<le> 3" "length (monsters (turn_player 13 0)) \<le> 3"
      "length (constructs (turn_player 12 0)) \<le> 3" "length (monsters (turn_player 12 0)) \<le> 3"
    by (simp_all add: turn_player_fields)
  have "\<exists>i. to_id (DiscardCard 11) = Some i"
    using legal_actions_registered [OF la m(1) g b] by (simp add: MAX_HAND_SIZE_def)
  moreover have "to_id (DiscardCard 12) = None"
    using legal_actions_registered [OF la m(2) g b] by (simp add: MAX_HAND_SIZE_def)
  moreover have "length (hand (player2 s1)) = 13"
    using len by (simp add: s1_def turn_state_fields)
  ultimately show ?thesis using n la m by blast
qed

text \<open>
  The claim as stated fails one move into the game: player 2 then holds 13 cards with a
  discard pending, \<open>discard_card\<close> with \<open>hand_index\<close> 12 is legal, and its key is not
  registered.
\<close>

theorem discard_beyond_action_space:
  "map_option (\<lambda>s. is_legal s (DiscardCard 12)) (next_state initial_state EndTurn) = Some True \<and>
   to_id (DiscardCard 12) = None"
proof -
  obtain s1 where s1: "next_state initial_state EndTurn = Some s1" "status s1 = ''active''"
      "currentPlayer s1 = 2" "length (hand (player2 s1)) = 13" "pendingDiscard (player2 s1) = 1"
    using first_end_turn by blast
  have "is_legal s1 (DiscardCard (int 12))"
    by (rule is_legal_discard [of s1 "player2 s1"]) (simp_all add: s1 get_player_def)
  then show ?thesis using s1(1) discard_12_unregistered by simp
qed

subsection \<open>Construct stacks stay well formed\<close>

lemma list_all_take: "list_all P xs \<Longrightarrow> list_all P (take j xs)"
  by (auto simp: list_all_iff dest: in_set_takeD)

lemma list_all_drop: "list_all P xs \<Longrightarrow> list_all P (drop j xs)"
  by (auto simp: list_all_iff dest: in_set_dropD)

lemma list_all_pop: "list_all P xs \<Longrightarrow> list_all P (take j xs @ drop (Suc j) xs)"
  by (simp add: list_all_take list_all_drop)

lemma list_all_update: "list_all P xs \<Longrightarrow> P v \<Longrightarrow> list_all P (xs[k := v])"
  by (auto simp: list_all_iff dest!: subsetD [OF set_update_subset_insert])

lemma list_all_nth: "list_all P xs \<Longrightarrow> k < length xs \<Longrightarrow> P (xs ! k)"
  by (simp add: list_all_length)

lemma py_set_Some: "py_set xs i v = Some ys \<Longrightarrow> \<exists>k. py_norm xs i = Some k \<and> k < length xs \<and> ys = xs[k := v]"
  by (auto simp: py_set_def dest: py_norm_Some)

lemma py_pop_Some:
  "py_pop xs i = Some (x, ys) \<Longrightarrow>
     \<exists>k. py_norm xs i = Some k \<and> k < length xs \<and> x = xs ! k \<and> ys = take k xs @ drop (Suc k) xs"
  by (auto simp: py_pop_def dest: py_norm_Some)

lemma buildStartingDeck_good: "list_all good_card buildStartingDeck"
  by code_simp

lemma player_ok_drawCards: "player_ok p \<Longrightarrow> player_ok (drawCards p k b)"
proof (induction p k b rule: drawCards.induct)
  case (1 p allowOverflow)
  then show ?case by simp
next
  case (2 p k allowOverflow)
  have "player_ok (p\<lparr>hand := hand p @ [last (deck p)], deck := butlast (deck p)\<rparr>)" if "deck p \<noteq> []"
    using "2.prems" that
    by (auto simp: player_ok_def list_all_iff dest: in_set_butlastD)
  then show ?case using 2 by auto
qed

lemma state_ok_initial: "state_ok initial_state"
proof -
  have "player_ok new_player"
    by (simp add: player_ok_def new_player_def buildStartingDeck_good)
  then show ?thesis
    by (simp add: state_ok_def initial_state_def player_ok_drawCards)
qed

lemma player_ok_discard: "player_ok me \<Longrightarrow> player_ok (apply_discard_card me h)"
  by (auto simp: apply_discard_card_def player_ok_def list_all_take list_all_drop)

lemma player_ok_experience_draw: "player_ok me \<Longrightarrow> player_ok (apply_experience_draw me)"
  by (simp add: apply_experience_draw_def enforceHandLimit_def player_ok_def)
    (use player_ok_drawCards [of "me\<lparr>experienceTokens := experienceTokens me - EXPERIENCE_MISS_THRESHOLD\<rparr>" EXPERIENCE_DRAW_COUNT True]
      in \<open>simp add: player_ok_def\<close>)

lemma player_ok_summon:
  "apply_summon me ps os r = Some me' \<Longrightarrow> player_ok me \<Longrightarrow> player_ok me'"
  by (auto simp: apply_summon_def Let_def player_ok_def list_all_update
      dest!: py_set_Some split: Option.bind_splits if_splits option.splits)

lemma player_ok_attack:
  "apply_attack me opp a tt ts = Some (me', opp') \<Longrightarrow>
     hand me' = hand me \<and> deck me' = deck me \<and> constructs me' = constructs me \<and>
     hand opp' = hand opp \<and> deck opp' = deck opp \<and> constructs opp' = constructs opp"
  by (auto simp: apply_attack_def Let_def split: Option.bind_splits if_splits option.splits)

lemma player_ok_meta: "apply_meta me = Some me' \<Longrightarrow> player_ok me \<Longrightarrow> player_ok me'"
  by (auto simp: apply_meta_def player_ok_def split: Option.bind_splits if_splits)

lemma player_ok_end_turn:
  "player_ok me \<Longrightarrow> player_ok opp \<Longrightarrow>
     player_ok (fst (apply_end_turn me opp)) \<and> player_ok (snd (apply_end_turn me opp))"
  using player_ok_drawCards [of "opp\<lparr>summoned := False\<rparr>" 1 True]
  by (simp add: apply_end_turn_def Let_def player_ok_def enforceHandLimit_def)

lemma stack_ok_new:
  "good_card cd \<Longrightarrow> makeConstructStackFromCard cd = Some st \<Longrightarrow> stack_ok st"
  by (cases cd) (auto simp: stack_ok_def)

lemma stack_ok_append:
  "stack_ok st \<Longrightarrow> isItem cd \<Longrightarrow> card_constructId cd = stack_constructId st \<Longrightarrow>
     length (cards st) < 3 \<Longrightarrow> stack_ok (st\<lparr>cards := cards st @ [cd]\<rparr>)"
  by (auto simp: stack_ok_def)

lemma player_ok_place_card:
  assumes "apply_place_card me h sl = Some (Inr me')" "player_ok me"
    and legal: "\<And>cd st. py_get (hand me) h = Some cd \<Longrightarrow> py_get (constructs me) sl = Some (Some st) \<Longrightarrow>
       stack_constructId st = card_constructId cd \<and> length (cards st) < 3"
  shows "player_ok me'"
proof -
  obtain cd hand' cur st' cs where p:
      "py_get (hand me) h = Some cd" "isItem cd" "py_pop (hand me) h = Some (cd, hand')"
      "py_get (constructs me) sl = Some cur"
      "(case cur of None \<Rightarrow> makeConstructStackFromCard cd
                  | Some st \<Rightarrow> Some (st\<lparr>cards := cards st @ [cd]\<rparr>)) = Some st'"
      "py_set (constructs me) sl (Some st') = Some cs"
      "me' = me\<lparr>hand := hand', constructs := cs\<rparr>"
    using assms(1)
    by (auto simp: apply_place_card_def py_get_def py_pop_def
        split: Option.bind_splits if_splits)
  obtain j where j: "j < length (hand me)" "cd = hand me ! j" "hand' = take j (hand me) @ drop (Suc j) (hand me)"
    using py_pop_Some [OF p(3)] by blast
  obtain k where k: "py_norm (constructs me) sl = Some k" "k < length (constructs me)"
      "cs = (constructs me)[k := Some st']"
    using py_set_Some [OF p(6)] by blast
  have hs: "list_all good_card (hand me)" "list_all good_card (deck me)" "list_all slot_ok (constructs me)"
    using assms(2) by (simp_all add: player_ok_def)
  have good: "good_card cd" using list_all_nth [OF hs(1) j(1)] j(2) by simp
  have cur: "cur = constructs me ! k" using p(4) k(1) by (simp add: py_get_def)
  have "stack_ok st'"
  proof (cases cur)
    case None
    then show ?thesis using p(5) stack_ok_new [OF good] by simp
  next
    case (Some st)
    have "constructs me ! k = Some st" using cur Some by simp
    then have "stack_ok st" using list_all_nth [OF hs(3) k(2)] by simp
    moreover have "stack_constructId st = card_constructId cd \<and> length (cards st) < 3"
      using legal [OF p(1)] p(4) Some by simp
    ultimately show ?thesis using p(2,5) Some stack_ok_append [of st cd] by auto
  qed
  then have "list_all slot_ok cs" using hs(3) k(3) by (simp add: list_all_update)
  then show ?thesis using hs j(3) p(7) by (simp add: player_ok_def list_all_take list_all_drop)
qed

lemma stack_ok_butlast:
  assumes "stack_ok st" "1 < length (cards st)"
  shows "stack_ok (st\<lparr>cards := butlast (cards st)\<rparr>)"
proof -
  have "set (butlast (cards st)) \<subseteq> set (cards st)" by (auto dest: in_set_butlastD)
  then show ?thesis using assms by (auto simp: stack_ok_def list_all_iff)
qed

lemma stack_ok_copy:
  assumes "stack_ok st" "length (cards st) < 3"
  shows "stack_ok (st\<lparr>cards := cards st @ [last (cards st)]\<rparr>)"
proof -
  have "cards st \<noteq> []" using assms(1) by (auto simp: stack_ok_def)
  then have "last (cards st) \<in> set (cards st)" by simp
  then show ?thesis using assms by (auto simp: stack_ok_def list_all_iff)
qed

lemma spell_on_construct_ok:
  "spell_on_construct cid own st = Some r \<Longrightarrow> stack_ok st \<Longrightarrow> slot_ok r"
  by (auto simp: spell_on_construct_def stack_ok_butlast stack_ok_copy split: if_splits)

lemma construct_target_ok:
  assumes "list_all slot_ok arr0" "py_get arr0 ts = Some target"
    "(case target of None \<Rightarrow> Some arr0
        | Some st \<Rightarrow> Option.bind (spell_on_construct sid b st) (py_set arr0 ts)) = Some arr"
  shows "list_all slot_ok arr"
proof (cases target)
  case None
  then show ?thesis using assms(1,3) by simp
next
  case (Some st)
  then obtain r where r: "spell_on_construct sid b st = Some r" "py_set arr0 ts r = Some arr"
    using assms(3) by (auto split: Option.bind_splits)
  obtain k where k: "py_norm arr0 ts = Some k" "k < length arr0" "arr = arr0[k := r]"
    using py_set_Some [OF r(2)] by blast
  have "arr0 ! k = Some st" using assms(2) k(1) Some by (simp add: py_get_def)
  then have "stack_ok st" using list_all_nth [OF assms(1) k(2)] by simp
  then have "slot_ok r" using spell_on_construct_ok [OF r(1)] by simp
  then show ?thesis using assms(1) k(3) by (simp add: list_all_update)
qed

lemma player_ok_play_spell:
  assumes "apply_play_spell me opp h ow tt ts = Some (me', opp')" "player_ok me" "player_ok opp"
  shows "player_ok me' \<and> player_ok opp'"
proof -
  obtain cd hand' where p: "py_pop (hand me) h = Some (cd, hand')"
    using assms(1) by (auto simp: apply_play_spell_def split: Option.bind_splits)
  obtain j where j: "hand' = take j (hand me) @ drop (Suc j) (hand me)"
    using py_pop_Some [OF p] by blast
  have hs: "list_all good_card hand'" "list_all good_card (deck me)" "list_all slot_ok (constructs me)"
      "list_all good_card (hand opp)" "list_all good_card (deck opp)" "list_all slot_ok (constructs opp)"
    using assms(2,3) j by (simp_all add: player_ok_def list_all_take list_all_drop)
  show ?thesis
  proof (cases "ow = ''me''")
    case True
    then show ?thesis
      using assms(1) p hs
      by (auto simp: apply_play_spell_def Let_def player_ok_def
          split: Option.bind_splits if_splits cong: option.case_cong
          intro: construct_target_ok [of "constructs me"])
  next
    case False
    then show ?thesis
      using assms(1) p hs
      by (auto simp: apply_play_spell_def Let_def player_ok_def
          split: Option.bind_splits if_splits cong: option.case_cong
          intro: construct_target_ok [of "constructs opp"])
  qed
qed

lemma place_move_legal:
  assumes "place_move p h cd slot = Some zs" "a \<in> set zs"
  shows "a = PlaceCard (int h) (int slot) \<and>
         (\<forall>st. py_get (constructs p) (int slot) = Some (Some st) \<longrightarrow>
            stack_constructId st = card_constructId cd \<and> length (cards st) < 3)"
  using assms
  by (auto simp: place_move_def split: Option.bind_splits option.splits if_splits)

lemma card_moves_place:
  assumes "card_moves p opp h cd = Some zs" "PlaceCard i sl \<in> set zs"
  shows "i = int h \<and>
         (\<forall>st. py_get (constructs p) sl = Some (Some st) \<longrightarrow>
            stack_constructId st = card_constructId cd \<and> length (cards st) < 3)"
proof (cases cd)
  case (ItemCard t cid nm sh r)
  then obtain ys where ys: "those (map (place_move p h cd) [0..<3]) = Some ys"
      "PlaceCard i sl \<in> set (concat ys)"
    using assms by (auto simp: card_moves_def)
  obtain slot ws where "place_move p h cd slot = Some ws" "PlaceCard i sl \<in> set ws"
    using those_concat_mem [OF ys] by blast
  then show ?thesis using place_move_legal [of p h cd slot ws "PlaceCard i sl"] by auto
next
  case (SpellCard sid)
  then show ?thesis
    using assms by (auto simp: card_moves_def dest!: target_moves_mem split: if_splits)
qed

lemma no_place_in_summon_moves: "summon_moves p = Some zs \<Longrightarrow> PlaceCard i sl \<notin> set zs"
  using summon_moves_schema [of p zs "PlaceCard i sl" "- 1"] by auto

lemma no_place_in_attack_moves: "PlaceCard i sl \<notin> set (attack_moves p opp)"
  by (auto simp: attack_moves_def Let_def split: if_splits)

lemma legal_place_card:
  assumes "legal_actions s = Some acts" "PlaceCard i sl \<in> set acts"
    "get_player s (currentPlayer s) = Some me"
    "py_get (hand me) i = Some cd" "py_get (constructs me) sl = Some (Some st)"
  shows "stack_constructId st = card_constructId cd \<and> length (cards st) < 3"
proof -
  have active: "status s \<noteq> ''finished''" using legal_not_finished [OF assms(1,2)] .
  obtain opp where opp: "get_player s (oppid (currentPlayer s)) = Some opp"
    using get_player_oppid [OF assms(3)] by blast
  have nd: "\<not> 0 < pendingDiscard me"
    using assms(1,2) legal_actions_discard [OF active assms(3)] by auto
  then obtain hm sm cm where parts:
      "those (map (\<lambda>(h, cd). card_moves me opp h cd) (enumerate 0 (hand me))) = Some hm"
      "summon_moves me = Some sm"
      "acts = concat hm @
         (if EXPERIENCE_MISS_THRESHOLD \<le> experienceTokens me \<and> 0 < length (deck me)
          then [ExperienceDraw] else []) @ sm @ (if cm then [Meta] else []) @
         attack_moves me opp @ [EndTurn]"
    using assms(1,3) opp active
    by (auto simp: legal_actions_def split: Option.bind_splits)
  have "PlaceCard i sl \<in> set (concat hm)"
    using assms(2) parts(3) no_place_in_summon_moves [OF parts(2)] no_place_in_attack_moves
    by (auto split: if_splits)
  then obtain x ws where x: "x \<in> set (enumerate 0 (hand me))"
      "(case x of (h, cd) \<Rightarrow> card_moves me opp h cd) = Some ws" "PlaceCard i sl \<in> set ws"
    using those_concat_mem [OF parts(1)] by blast
  have e: "fst x < length (hand me)" "hand me ! fst x = snd x"
    using x(1) by (simp_all add: in_set_enumerate_eq)
  have cm: "card_moves me opp (fst x) (snd x) = Some ws" using x(2) by (simp add: case_prod_beta)
  have r: "i = int (fst x)"
      "\<forall>st. py_get (constructs me) sl = Some (Some st) \<longrightarrow>
            stack_constructId st = card_constructId (snd x) \<and> length (cards st) < 3"
    using card_moves_place [OF cm x(3)] by simp_all
  have "cd = snd x" using assms(4) r(1) e by (simp add: py_get_nat)
  then show ?thesis using r(2) assms(5) by simp
qed

lemma state_ok_put:
  "pid = 1 \<or> pid = 2 \<Longrightarrow> player_ok me \<Longrightarrow> player_ok opp \<Longrightarrow>
     state_ok (mark_game_over (put_players s pid me opp)) \<and>
     state_ok (mark_game_over (put_players (s\<lparr>currentPlayer := c\<rparr>) pid me opp))"
  by (auto simp: state_ok_def put_players_def)

lemma state_ok_players:
  "state_ok s \<Longrightarrow> get_player s pid = Some p \<Longrightarrow> player_ok p"
  by (auto simp: state_ok_def get_player_def split: if_splits)

lemma state_ok_step:
  assumes "state_ok s" "legal_actions s = Some acts" "a \<in> set acts" "next_state s a = Some s'"
  shows "state_ok s'"
proof -
  have active: "status s \<noteq> ''finished''" using legal_not_finished [OF assms(2,3)] .
  obtain me where me: "get_player s (currentPlayer s) = Some me"
    using assms(2) active by (auto simp: legal_actions_def split: Option.bind_splits)
  obtain opp where opp: "get_player s (oppid (currentPlayer s)) = Some opp"
    using get_player_oppid [OF me] by blast
  have pid: "currentPlayer s = 1 \<or> currentPlayer s = 2" using get_player_valid [OF me] .
  have ok: "player_ok me" "player_ok opp"
    using state_ok_players [OF assms(1)] me opp by blast+
  note ns = assms(4) [unfolded next_state_active [OF active me opp, of a]]
  note put = state_ok_put [OF pid]
  show ?thesis
  proof (cases a)
    case EndTurn
    then show ?thesis using ns put player_ok_end_turn [OF ok] by auto
  next
    case Meta
    then show ?thesis using ns put ok player_ok_meta [of me] by auto
  next
    case ExperienceDraw
    then show ?thesis using ns put ok player_ok_experience_draw [of me] by auto
  next
    case (DiscardCard h)
    then show ?thesis using ns put ok player_ok_discard [of me] by auto
  next
    case (PlaceCard h sl)
    then obtain r where r: "apply_place_card me h sl = Some r" using ns by auto
    show ?thesis
    proof (cases r)
      case (Inl u)
      then show ?thesis using assms(1) ns r PlaceCard by auto
    next
      case (Inr me')
      have "player_ok me'"
      proof (rule player_ok_place_card [OF _ ok(1)])
        show "apply_place_card me h sl = Some (Inr me')" using r Inr by simp
      next
        fix cd st
        assume "py_get (hand me) h = Some cd" "py_get (constructs me) sl = Some (Some st)"
        then show "stack_constructId st = card_constructId cd \<and> length (cards st) < 3"
          using legal_place_card [OF assms(2) _ me] assms(3) PlaceCard by blast
      qed
      then show ?thesis using ns r Inr PlaceCard put ok(2) by auto
    qed
  next
    case (PlaySpell h ow tt ts)
    then obtain me' opp' where r: "apply_play_spell me opp h ow tt ts = Some (me', opp')"
      using ns by auto
    then show ?thesis using ns PlaySpell put player_ok_play_spell [OF r ok] by auto
  next
    case (Summon ps os rr)
    then show ?thesis using ns put ok player_ok_summon [of me ps os rr] by auto
  next
    case (Attack asl tt ts)
    then obtain me' opp' where r: "apply_attack me opp asl tt ts = Some (me', opp')"
      using ns by auto
    have "player_ok me'" "player_ok opp'"
      using player_ok_attack [OF r] ok by (simp_all add: player_ok_def)
    then show ?thesis using ns Attack put r by auto
  qed
qed

lemma reachable_state_ok: "reachable s \<Longrightarrow> state_ok s"
  by (induction rule: reachable.induct) (auto intro: state_ok_initial state_ok_step)

text \<open>
  Claim C5. In every state reachable from \<open>initial_state\<close> by actions drawn from
  \<open>legal_actions\<close>, every non-empty construct stack of either player holds between 1 and 3
  cards, all of them item cards whose \<open>constructId\<close> is the stack's \<open>constructId\<close>, and
  the stack's \<open>type\<close> is the category of that construct in \<open>CONSTRUCTS\<close>.
\<close>

theorem reachable_stacks_well_formed:
  assumes "reachable s"
  shows "\<forall>p\<in>{player1 s, player2 s}. \<forall>st. Some st \<in> set (constructs p) \<longrightarrow>
           1 \<le> length (cards st) \<and> length (cards st) \<le> 3 \<and>
           (\<forall>c\<in>set (cards st). isItem c \<and> card_constructId c = stack_constructId st) \<and>
           (\<exists>info. CONSTRUCTS (stack_constructId st) = Some info \<and> c_type info = stack_type st)"
proof -
  have ok: "player_ok (player1 s)" "player_ok (player2 s)"
    using reachable_state_ok [OF assms] by (simp_all add: state_ok_def)
  have "1 \<le> length (cards st) \<and> length (cards st) \<le> 3 \<and>
           (\<forall>c\<in>set (cards st). isItem c \<and> card_constructId c = stack_constructId st) \<and>
           (\<exists>info. CONSTRUCTS (stack_constructId st) = Some info \<and> c_type info = stack_type st)"
    if "player_ok p" "Some st \<in> set (constructs p)" for p st
  proof -
    have "slot_ok (Some st)" using that by (auto simp: player_ok_def list_all_iff)
    then show ?thesis by (auto simp: stack_ok_def category_def list_all_iff)
  qed
  then show ?thesis using ok by blast
qed

theorem reachable_stacks_well_formed_witness:
  "\<exists>s st. play initial_state (concat (replicate 13 turn_round) @ [PlaceCard 11 0]) = Some s \<and>
     reachable s \<and> constructs (player1 s) = [Some st, None, None] \<and>
     st = \<lparr>stack_type = ''outcome'', stack_constructId = ''ocb'', cards = [ocb_card]\<rparr> \<and>
     1 \<le> length (cards st) \<and> length (cards st) \<le> 3 \<and>
     (\<exists>info. CONSTRUCTS (stack_constructId st) = Some info \<and> c_type info = stack_type st)"
proof -
  define st where "st = \<lparr>stack_type = ''outcome'', stack_constructId = ''ocb'', cards = [ocb_card]\<rparr>"
  obtain s where s: "next_state (turn_state 13) (PlaceCard 11 0) = Some s"
      "constructs (player1 s) = [Some st, None, None]"
    using turn_13_next unfolding st_def by blast
  have p: "play initial_state (concat (replicate 13 turn_round) @ [PlaceCard 11 0]) = Some s"
    using play_turn_rounds [of 0 13] turn_13_place s(1)
    by (simp add: play_append initial_turn_state)
  have r: "reachable s" using play_reachable [OF reachable_init p] .
  have "Some st \<in> set (constructs (player1 s))" by (simp add: s(2))
  then have "1 \<le> length (cards st) \<and> length (cards st) \<le> 3 \<and>
      (\<forall>c\<in>set (cards st). isItem c \<and> card_constructId c = stack_constructId st) \<and>
      (\<exists>info. CONSTRUCTS (stack_constructId st) = Some info \<and> c_type info = stack_type st)"
    using reachable_stacks_well_formed [OF r] by blast
  then show ?thesis using p r s(2) st_def by blast
qed

end
